theory Spec2Isabelle
  imports Complex_Main "HOL-Library.Word"
begin

section \<open>Store model\<close>

text \<open>
  The rows that \<^verbatim>\<open>routes/webhooks.ts\<close> reads and writes through Prisma.
  A JavaScript \<^verbatim>\<open>Date\<close> is its \<^verbatim>\<open>getTime()\<close> value: milliseconds since the epoch.
  Row identifiers are natural numbers; the database generates them.
\<close>

type_synonym timestamp = int

datatype collection_type = BKASH | NAGAD | CASH | BANK_DEPOSIT

datatype collection_status = PENDING | APPROVED | REJECTED

datatype match_type = EXACT | FUZZY

text \<open>
  The validated payload \<^verbatim>\<open>data\<close> handed to \<^verbatim>\<open>processBkashWebhook\<close> and
  \<^verbatim>\<open>processNagadWebhook\<close>. The two schemas differ in field names only:
  \<open>wd_txnId\<close> is bKash's \<^verbatim>\<open>txnId\<close> and Nagad's \<^verbatim>\<open>paymentRefId\<close>,
  \<open>wd_date\<close> is \<^verbatim>\<open>date\<close> and \<^verbatim>\<open>dateTime\<close>, \<open>wd_reference\<close> is
  \<^verbatim>\<open>merchantInvoiceNumber\<close> and \<^verbatim>\<open>orderId\<close>.
\<close>

record webhook_data =
  wd_txnId :: string
  wd_amount :: rat
  wd_currency :: string
  wd_status :: string
  wd_date :: string
  wd_customerMobile :: "string option"
  wd_reference :: "string option"
  wd_signature :: string

record collection =
  c_id :: nat
  c_accountId :: nat
  c_type :: collection_type
  c_amount :: rat
  c_collectionDate :: timestamp
  c_txnId :: "string option"
  c_status :: collection_status
  c_isMatched :: bool
  c_webhookData :: "webhook_data option"
  c_createdAt :: timestamp

record webhook_log =
  wl_id :: nat
  wl_provider :: collection_type
  wl_txnId :: string
  wl_amount :: rat
  wl_status :: string
  wl_payload :: webhook_data
  wl_processedAt :: timestamp

record reconciliation =
  r_collectionId :: nat
  r_webhookLogId :: nat
  r_status :: string
  r_matchedAt :: timestamp
  r_matchType :: match_type

record db =
  collections :: "collection list"
  webhookLogs :: "webhook_log list"
  reconciliations :: "reconciliation list"

text \<open>
  What a call depends on besides the payload and the store. The Prisma schema is not
  part of the sources, so whether \<^verbatim>\<open>webhookLog\<close> carries a unique key on
  (provider, txnId) is the parameter \<open>uniqueKey\<close>. \<open>parseDate\<close> is
  \<^verbatim>\<open>new Date(s).getTime()\<close>, with \<open>None\<close> for an invalid date. \<open>clockLog\<close> and
  \<open>clockMatch\<close> are the two readings of \<^verbatim>\<open>new Date()\<close>.
\<close>

record ctx =
  uniqueKey :: bool
  parseDate :: "string \<Rightarrow> timestamp option"
  clockLog :: timestamp
  clockMatch :: timestamp

datatype error = UniqueConstraintViolation | RecordNotFound | InvalidDateValue

record result =
  matched :: bool
  collectionId :: "nat option"
  webhookLogId :: nat

section \<open>Prisma operations\<close>

text \<open>
  \<^verbatim>\<open>findFirst\<close> without \<^verbatim>\<open>orderBy\<close> returns the first row of the table that
  satisfies \<^verbatim>\<open>where\<close>; with \<^verbatim>\<open>orderBy: { createdAt: 'asc' }\<close> the first row of the
  matching rows sorted by that key (rows with equal keys stay in table order).
\<close>

definition findFirst :: "('a \<Rightarrow> bool) \<Rightarrow> 'a list \<Rightarrow> 'a option" where
  "findFirst wh rows = List.find wh rows"

definition findFirstOrderBy :: "('a \<Rightarrow> int) \<Rightarrow> ('a \<Rightarrow> bool) \<Rightarrow> 'a list \<Rightarrow> 'a option" where
  "findFirstOrderBy key wh rows =
     (case sort_key key (filter wh rows) of [] \<Rightarrow> None | r # _ \<Rightarrow> Some r)"

definition freshId :: "nat list \<Rightarrow> nat" where
  "freshId ids = Suc (fold max ids 0)"

definition duplicateKey :: "collection_type \<Rightarrow> webhook_data \<Rightarrow> db \<Rightarrow> bool" where
  "duplicateKey p d s =
     list_ex (\<lambda>l. wl_provider l = p \<and> wl_txnId l = wd_txnId d) (webhookLogs s)"

text \<open>\<^verbatim>\<open>prisma.webhookLog.create\<close>: throws P2002 when a unique key exists and is taken.\<close>

definition createWebhookLog ::
    "ctx \<Rightarrow> collection_type \<Rightarrow> webhook_data \<Rightarrow> db \<Rightarrow> error + (webhook_log \<times> db)" where
  "createWebhookLog cx p d s =
     (if uniqueKey cx \<and> duplicateKey p d s then Inl UniqueConstraintViolation
      else
        let l = \<lparr> wl_id = freshId (map wl_id (webhookLogs s)),
                  wl_provider = p,
                  wl_txnId = wd_txnId d,
                  wl_amount = wd_amount d,
                  wl_status = wd_status d,
                  wl_payload = d,
                  wl_processedAt = clockLog cx \<rparr>
        in Inr (l, s\<lparr> webhookLogs := webhookLogs s @ [l] \<rparr>))"

text \<open>
  \<^verbatim>\<open>prisma.collection.update({ where: { id }, data })\<close>: the row with that id is
  rewritten whatever its current status; P2025 when there is no such row.
\<close>

definition updateCollection :: "nat \<Rightarrow> (collection \<Rightarrow> collection) \<Rightarrow> db \<Rightarrow> error + db" where
  "updateCollection cid f s =
     (if list_ex (\<lambda>c. c_id c = cid) (collections s)
      then Inr (s\<lparr> collections := map (\<lambda>c. if c_id c = cid then f c else c) (collections s) \<rparr>)
      else Inl RecordNotFound)"

definition createReconciliation :: "reconciliation \<Rightarrow> db \<Rightarrow> db" where
  "createReconciliation r s = s\<lparr> reconciliations := reconciliations s @ [r] \<rparr>"

section \<open>The matcher: processBkashWebhook and processNagadWebhook\<close>

definition isSuccessStatus :: "string \<Rightarrow> bool" where
  "isSuccessStatus st \<longleftrightarrow> st = ''SUCCESS'' \<or> st = ''COMPLETED''"

text \<open>The \<^verbatim>\<open>where\<close> clause of the first search: by transaction id.\<close>

definition exactWhere :: "collection_type \<Rightarrow> webhook_data \<Rightarrow> collection \<Rightarrow> bool" where
  "exactWhere p d c \<longleftrightarrow>
     c_type c = p \<and> c_txnId c = Some (wd_txnId d) \<and> c_status c = PENDING"

text \<open>The \<^verbatim>\<open>where\<close> clause of the second search: by amount and date range.\<close>

definition fuzzyWhere :: "collection_type \<Rightarrow> webhook_data \<Rightarrow> timestamp \<Rightarrow> collection \<Rightarrow> bool" where
  "fuzzyWhere p d paymentDate c \<longleftrightarrow>
     c_type c = p \<and>
     c_amount c = wd_amount d \<and>
     paymentDate - 24 * 60 * 60 * 1000 \<le> c_collectionDate c \<and>
     c_collectionDate c \<le> paymentDate + 24 * 60 * 60 * 1000 \<and>
     c_status c = PENDING \<and>
     \<not> c_isMatched c"

text \<open>
  The two searches. The second runs only when the first returns nothing; it is there that
  \<^verbatim>\<open>data.date\<close> is parsed, and an invalid date makes the query throw.
\<close>

definition findMatch ::
    "ctx \<Rightarrow> collection_type \<Rightarrow> webhook_data \<Rightarrow> db \<Rightarrow> error + collection option" where
  "findMatch cx p d s =
     (case findFirst (exactWhere p d) (collections s) of
        Some c \<Rightarrow> Inr (Some c)
      | None \<Rightarrow>
          (case parseDate cx (wd_date d) of
             None \<Rightarrow> Inl InvalidDateValue
           | Some paymentDate \<Rightarrow>
               Inr (findFirstOrderBy c_createdAt (fuzzyWhere p d paymentDate) (collections s))))"

definition claimData :: "webhook_data \<Rightarrow> collection \<Rightarrow> collection" where
  "claimData d c =
     c\<lparr> c_txnId := Some (wd_txnId d),
        c_isMatched := True,
        c_webhookData := Some d,
        c_status := APPROVED \<rparr>"

definition matchedReconciliation ::
    "ctx \<Rightarrow> webhook_data \<Rightarrow> webhook_log \<Rightarrow> collection \<Rightarrow> reconciliation" where
  "matchedReconciliation cx d l m =
     \<lparr> r_collectionId = c_id m,
       r_webhookLogId = wl_id l,
       r_status = ''MATCHED'',
       r_matchedAt = clockMatch cx,
       r_matchType = (if Some (wd_txnId d) = c_txnId m then EXACT else FUZZY) \<rparr>"

text \<open>The branch \<^verbatim>\<open>if (matchedCollection) { ... }\<close>: update, then record.\<close>

definition claimMatch ::
    "ctx \<Rightarrow> webhook_data \<Rightarrow> webhook_log \<Rightarrow> collection \<Rightarrow> db \<Rightarrow> (error + result) \<times> db" where
  "claimMatch cx d l m s =
     (case updateCollection (c_id m) (claimData d) s of
        Inl e \<Rightarrow> (Inl e, s)
      | Inr s' \<Rightarrow>
          (Inr \<lparr> matched = True, collectionId = Some (c_id m), webhookLogId = wl_id l \<rparr>,
           createReconciliation (matchedReconciliation cx d l m) s'))"

definition unmatchedResult :: "webhook_log \<Rightarrow> result" where
  "unmatchedResult l = \<lparr> matched = False, collectionId = None, webhookLogId = wl_id l \<rparr>"

text \<open>
  The body shared by \<^verbatim>\<open>processBkashWebhook\<close> and \<^verbatim>\<open>processNagadWebhook\<close>, which
  differ in the provider literal and the payload's field names only. A thrown error leaves
  the rows written before it: there is no transaction.
\<close>

definition processWebhook ::
    "collection_type \<Rightarrow> ctx \<Rightarrow> webhook_data \<Rightarrow> db \<Rightarrow> (error + result) \<times> db" where
  "processWebhook p cx d s =
     (case createWebhookLog cx p d s of
        Inl e \<Rightarrow> (Inl e, s)
      | Inr (l, s1) \<Rightarrow>
          if isSuccessStatus (wd_status d) then
            (case findMatch cx p d s1 of
               Inl e \<Rightarrow> (Inl e, s1)
             | Inr (Some m) \<Rightarrow> claimMatch cx d l m s1
             | Inr None \<Rightarrow> (Inr (unmatchedResult l), s1))
          else (Inr (unmatchedResult l), s1))"

definition processBkashWebhook :: "ctx \<Rightarrow> webhook_data \<Rightarrow> db \<Rightarrow> (error + result) \<times> db" where
  "processBkashWebhook = processWebhook BKASH"

definition processNagadWebhook :: "ctx \<Rightarrow> webhook_data \<Rightarrow> db \<Rightarrow> (error + result) \<times> db" where
  "processNagadWebhook = processWebhook NAGAD"

section \<open>Repeated and interleaved deliveries\<close>

text \<open>The store after the same payload has been delivered \<open>n\<close> times, one call after another.\<close>

fun deliveries :: "nat \<Rightarrow> collection_type \<Rightarrow> ctx \<Rightarrow> webhook_data \<Rightarrow> db \<Rightarrow> db" where
  "deliveries 0 p cx d s = s"
| "deliveries (Suc n) p cx d s = deliveries n p cx d (snd (processWebhook p cx d s))"

text \<open>
  The stores that calls of the two functions, each run to its end before the next starts,
  can produce from a store whose collection ids are distinct and which holds no
  reconciliation yet.
\<close>

inductive reachable :: "db \<Rightarrow> bool" where
  initial: "distinct (map c_id (collections s)) \<Longrightarrow> reconciliations s = [] \<Longrightarrow> reachable s"
| bkash: "reachable s \<Longrightarrow> reachable (snd (processBkashWebhook cx d s))"
| nagad: "reachable s \<Longrightarrow> reachable (snd (processNagadWebhook cx d s))"

definition matchedCount :: "nat \<Rightarrow> db \<Rightarrow> nat" where
  "matchedCount cid s =
     length (filter (\<lambda>r. r_collectionId r = cid \<and> r_status r = ''MATCHED'') (reconciliations s))"

text \<open>
  What sequential calls keep true of a store: collection ids are distinct, no two
  reconciliations name the same collection, and a collection that a reconciliation names
  is no longer pending.
\<close>

definition claimedOnce :: "db \<Rightarrow> bool" where
  "claimedOnce s \<longleftrightarrow>
     distinct (map c_id (collections s)) \<and>
     distinct (map r_collectionId (reconciliations s)) \<and>
     list_all (\<lambda>r. list_all (\<lambda>c. c_id c = r_collectionId r \<longrightarrow> c_status c \<noteq> PENDING)
                 (collections s))
       (reconciliations s)"

text \<open>The number of rows whose status differs between two versions of the table.\<close>

definition transitions :: "collection list \<Rightarrow> collection list \<Rightarrow> nat" where
  "transitions before after =
     length (filter (\<lambda>(a, b). c_status a \<noteq> c_status b) (zip before after))"

text \<open>
  A call in flight. Every \<^verbatim>\<open>await\<close> of the function body is a point where another
  call may run, so a call is a sequence of five store operations:
  \<^verbatim>\<open>webhookLog.create\<close>, the first \<^verbatim>\<open>findFirst\<close>, the second \<^verbatim>\<open>findFirst\<close>,
  \<^verbatim>\<open>collection.update\<close> and \<^verbatim>\<open>reconciliation.create\<close>.
\<close>

datatype task =
    AtStart webhook_data
  | AfterLog webhook_data webhook_log
  | AfterExact webhook_data webhook_log
  | Selected webhook_data webhook_log collection
  | Updated webhook_data webhook_log collection
  | Finished result
  | Thrown error

fun step :: "collection_type \<Rightarrow> ctx \<Rightarrow> task \<Rightarrow> db \<Rightarrow> task \<times> db" where
  "step p cx (AtStart d) s =
     (case createWebhookLog cx p d s of
        Inl e \<Rightarrow> (Thrown e, s)
      | Inr (l, s1) \<Rightarrow>
          if isSuccessStatus (wd_status d) then (AfterLog d l, s1)
          else (Finished (unmatchedResult l), s1))"
| "step p cx (AfterLog d l) s =
     (case findFirst (exactWhere p d) (collections s) of
        Some c \<Rightarrow> (Selected d l c, s)
      | None \<Rightarrow> (AfterExact d l, s))"
| "step p cx (AfterExact d l) s =
     (case parseDate cx (wd_date d) of
        None \<Rightarrow> (Thrown InvalidDateValue, s)
      | Some paymentDate \<Rightarrow>
          (case findFirstOrderBy c_createdAt (fuzzyWhere p d paymentDate) (collections s) of
             Some c \<Rightarrow> (Selected d l c, s)
           | None \<Rightarrow> (Finished (unmatchedResult l), s)))"
| "step p cx (Selected d l m) s =
     (case updateCollection (c_id m) (claimData d) s of
        Inl e \<Rightarrow> (Thrown e, s)
      | Inr s' \<Rightarrow> (Updated d l m, s'))"
| "step p cx (Updated d l m) s =
     (Finished \<lparr> matched = True, collectionId = Some (c_id m), webhookLogId = wl_id l \<rparr>,
      createReconciliation (matchedReconciliation cx d l m) s)"
| "step p cx (Finished r) s = (Finished r, s)"
| "step p cx (Thrown e) s = (Thrown e, s)"

fun steps :: "nat \<Rightarrow> collection_type \<Rightarrow> ctx \<Rightarrow> task \<Rightarrow> db \<Rightarrow> task \<times> db" where
  "steps 0 p cx t s = (t, s)"
| "steps (Suc n) p cx t s = (case step p cx t s of (t', s') \<Rightarrow> steps n p cx t' s')"

definition outcome :: "error + result \<Rightarrow> task" where
  "outcome x = (case x of Inl e \<Rightarrow> Thrown e | Inr r \<Rightarrow> Finished r)"

text \<open>
  Two calls in flight on one store. The schedule says which call performs its next store
  operation: \<open>False\<close> the first call, \<open>True\<close> the second.
\<close>

fun interleave ::
    "bool list \<Rightarrow> collection_type \<Rightarrow> ctx \<Rightarrow> task \<times> task \<times> db \<Rightarrow> task \<times> task \<times> db" where
  "interleave [] p cx cfg = cfg"
| "interleave (False # sched) p cx (t1, t2, s) =
     (case step p cx t1 s of (t1', s') \<Rightarrow> interleave sched p cx (t1', t2, s'))"
| "interleave (True # sched) p cx (t1, t2, s) =
     (case step p cx t2 s of (t2', s') \<Rightarrow> interleave sched p cx (t1, t2', s'))"

section \<open>Webhook gateway: verifyWebhookSignature and the routes\<close>

type_synonym byte = "8 word"

text \<open>
  The request as the middleware sees it: the headers, with lower-case names, and
  \<^verbatim>\<open>req.body\<close>, which \<^verbatim>\<open>express.json()\<close> has already parsed. The raw bytes of the
  body are not available to the middleware.
\<close>

record 'b request =
  headers :: "string \<Rightarrow> string option"
  body :: 'b

text \<open>
  The environment of the gateway: the two secrets of \<^verbatim>\<open>process.env\<close>, and the
  library functions the code calls. \<open>hmacSha256 key msg\<close> is the digest of
  \<^verbatim>\<open>crypto.createHmac('sha256', key).update(msg)\<close>; \<open>jsonStringify\<close> is
  \<^verbatim>\<open>JSON.stringify\<close>; \<open>parseInt\<close> gives \<open>None\<close> for NaN; \<open>dateNow\<close> is
  \<^verbatim>\<open>Date.now()\<close>; the two schemas are \<^verbatim>\<open>bkashWebhookSchema.parse\<close> and
  \<^verbatim>\<open>nagadWebhookSchema.parse\<close>, with \<open>None\<close> for a ZodError.
\<close>

record 'b gateway_env =
  BKASH_WEBHOOK_SECRET :: "string option"
  NAGAD_WEBHOOK_SECRET :: "string option"
  hmacSha256 :: "string \<Rightarrow> string \<Rightarrow> byte list"
  jsonStringify :: "'b \<Rightarrow> string"
  parseInt :: "string \<Rightarrow> int option"
  dateNow :: int
  bkashWebhookSchema :: "'b \<Rightarrow> webhook_data option"
  nagadWebhookSchema :: "'b \<Rightarrow> webhook_data option"

datatype gate = Respond nat string | Next

datatype js_error = RangeError

text \<open>
  JavaScript truthiness of a value that is a string or \<^verbatim>\<open>undefined\<close>: the empty string
  is falsy. \<open>jsOr\<close> is \<^verbatim>\<open>a || b\<close>.
\<close>

definition truthy :: "string option \<Rightarrow> string option" where
  "truthy v = (case v of None \<Rightarrow> None | Some str \<Rightarrow> if str = [] then None else Some str)"

definition jsOr :: "string option \<Rightarrow> string option \<Rightarrow> string option" where
  "jsOr a b = (case truthy a of Some str \<Rightarrow> Some str | None \<Rightarrow> b)"

text \<open>\<^verbatim>\<open>str.replace(pat, rep)\<close> with a string pattern: the first occurrence only.\<close>

fun replaceFirst :: "string \<Rightarrow> string \<Rightarrow> string \<Rightarrow> string" where
  "replaceFirst pat rep [] = (if pat = [] then rep else [])"
| "replaceFirst pat rep (c # cs) =
     (if take (length pat) (c # cs) = pat then rep @ drop (length pat) (c # cs)
      else c # replaceFirst pat rep cs)"

text \<open>
  \<^verbatim>\<open>digest('hex')\<close> writes two lower-case digits per byte.
  \<^verbatim>\<open>Buffer.from(str, 'hex')\<close> reads pairs of digits of either case and stops at the
  first pair that is not two hex digits; a last single character is dropped.
\<close>

definition hexDigit :: "nat \<Rightarrow> char" where
  "hexDigit n = (if n < 10 then char_of (48 + n) else char_of (87 + n))"

definition unhex :: "char \<Rightarrow> nat option" where
  "unhex c =
     (let n = of_char c :: nat in
      if 48 \<le> n \<and> n \<le> 57 then Some (n - 48)
      else if 97 \<le> n \<and> n \<le> 102 then Some (n - 87)
      else if 65 \<le> n \<and> n \<le> 70 then Some (n - 55)
      else None)"

definition hexEncode :: "byte list \<Rightarrow> string" where
  "hexEncode bs = concat (map (\<lambda>b. [hexDigit (unat b div 16), hexDigit (unat b mod 16)]) bs)"

fun hexDecode :: "string \<Rightarrow> byte list" where
  "hexDecode (a # b # rest) =
     (case (unhex a, unhex b) of
        (Some hi, Some lo) \<Rightarrow> word_of_nat (16 * hi + lo) # hexDecode rest
      | _ \<Rightarrow> [])"
| "hexDecode _ = []"

text \<open>\<^verbatim>\<open>crypto.timingSafeEqual\<close> throws a RangeError when the byte lengths differ.\<close>

definition timingSafeEqual :: "byte list \<Rightarrow> byte list \<Rightarrow> js_error + bool" where
  "timingSafeEqual a b = (if length a \<noteq> length b then Inl RangeError else Inr (a = b))"

definition secretFor :: "collection_type \<Rightarrow> 'b gateway_env \<Rightarrow> string option" where
  "secretFor provider env =
     (if provider = BKASH then BKASH_WEBHOOK_SECRET env else NAGAD_WEBHOOK_SECRET env)"

definition signatureHeader :: "'b request \<Rightarrow> string option" where
  "signatureHeader req = jsOr (headers req ''x-signature'') (headers req ''signature'')"

definition timestampHeader :: "'b request \<Rightarrow> string option" where
  "timestampHeader req = jsOr (headers req ''x-timestamp'') (headers req ''timestamp'')"

text \<open>The string that is signed: \<^verbatim>\<open>`${timestamp}.${JSON.stringify(req.body)}`\<close> or the body alone.\<close>

definition signedPayload :: "'b gateway_env \<Rightarrow> 'b request \<Rightarrow> string" where
  "signedPayload env req =
     (case truthy (timestampHeader req) of
        Some ts \<Rightarrow> ts @ ''.'' @ jsonStringify env (body req)
      | None \<Rightarrow> jsonStringify env (body req))"

text \<open>
  The middleware. Anything thrown inside its \<^verbatim>\<open>try\<close> block is answered with 500
  "Signature verification failed". A timestamp that \<^verbatim>\<open>parseInt\<close> turns into NaN passes
  the age test, since every comparison with NaN is false.
\<close>

definition verifyWebhookSignature ::
    "collection_type \<Rightarrow> 'b gateway_env \<Rightarrow> 'b request \<Rightarrow> gate" where
  "verifyWebhookSignature provider env req =
     (case truthy (signatureHeader req) of
        None \<Rightarrow> Respond 401 ''Missing signature header''
      | Some signature \<Rightarrow>
          (case truthy (secretFor provider env) of
             None \<Rightarrow> Respond 500 ''Webhook not configured''
           | Some secret \<Rightarrow>
               let expectedSignature = hexEncode (hmacSha256 env secret (signedPayload env req));
                   providedSignature = replaceFirst ''sha256='' [] signature
               in case timingSafeEqual (hexDecode expectedSignature) (hexDecode providedSignature) of
                    Inl thrown \<Rightarrow> Respond 500 ''Signature verification failed''
                  | Inr False \<Rightarrow> Respond 401 ''Invalid signature''
                  | Inr True \<Rightarrow>
                      (case truthy (timestampHeader req) of
                         None \<Rightarrow> Next
                       | Some ts \<Rightarrow>
                           (case parseInt env ts of
                              None \<Rightarrow> Next
                            | Some n \<Rightarrow>
                                if \<bar>dateNow env - n * 1000\<bar> > 5 * 60 * 1000
                                then Respond 401 ''Request timestamp too old''
                                else Next))))"

datatype response = ErrorResponse nat string | Processed bool "nat option"

text \<open>The global \<^verbatim>\<open>errorHandler\<close> on the errors a call can throw.\<close>

fun errorHandler :: "error \<Rightarrow> response" where
  "errorHandler UniqueConstraintViolation = ErrorResponse 400 ''Unique constraint violation''"
| "errorHandler RecordNotFound = ErrorResponse 404 ''Record not found''"
| "errorHandler InvalidDateValue = ErrorResponse 500 ''Internal Server Error''"

text \<open>
  \<^verbatim>\<open>router.post('/bkash', ...)\<close> and \<^verbatim>\<open>router.post('/nagad', ...)\<close>: the handler runs
  only when the middleware calls \<^verbatim>\<open>next()\<close>.
\<close>

definition schemaFor :: "collection_type \<Rightarrow> 'b gateway_env \<Rightarrow> 'b \<Rightarrow> webhook_data option" where
  "schemaFor provider env =
     (if provider = BKASH then bkashWebhookSchema env else nagadWebhookSchema env)"

definition webhookRoute ::
    "collection_type \<Rightarrow> 'b gateway_env \<Rightarrow> ctx \<Rightarrow> 'b request \<Rightarrow> db \<Rightarrow> response \<times> db" where
  "webhookRoute provider env cx req s =
     (case verifyWebhookSignature provider env req of
        Respond code msg \<Rightarrow> (ErrorResponse code msg, s)
      | Next \<Rightarrow>
          (case schemaFor provider env (body req) of
             None \<Rightarrow> (ErrorResponse 400 ''Invalid webhook payload'', s)
           | Some d \<Rightarrow>
               (case processWebhook provider cx d s of
                  (Inl e, s') \<Rightarrow> (errorHandler e, s')
                | (Inr r, s') \<Rightarrow> (Processed (matched r) (collectionId r), s'))))"

section \<open>SLA sweep: the SQL function check_sla_breaches\<close>

datatype alert_severity = INFO | WARNING | ERROR | CRITICAL

text \<open>
  The columns the function reads. \<open>b_depositHours\<close> and \<open>b_updateDays\<close> are the
  texts \<^verbatim>\<open>sla_settings->>'depositHours'\<close> and \<^verbatim>\<open>sla_settings->>'updateDays'\<close>:
  \<open>Absent\<close> for NULL (no such key), \<open>IntegerText n\<close> for a text that reads as the integer
  \<open>n\<close>, of any size, and \<open>OtherText\<close> for any other text. The API accepts any JSON as
  \<^verbatim>\<open>slaSettings\<close>, so all three occur.
\<close>

datatype json_text = Absent | IntegerText int | OtherText

datatype sql_error = NumericValueOutOfRange | InvalidTextRepresentation

record account =
  a_id :: nat
  a_bankId :: nat
  a_lastContactDate :: "timestamp option"
  a_createdAt :: timestamp

record bank =
  b_id :: nat
  b_depositHours :: json_text
  b_updateDays :: json_text

record sla_tables =
  t_collections :: "collection list"
  t_accounts :: "account list"
  t_banks :: "bank list"

record breach =
  account_id :: nat
  breach_type :: string
  breach_hours :: int
  severity :: alert_severity

text \<open>
  \<^verbatim>\<open>EXTRACT(EPOCH FROM (NOW() - ts))\<close>: seconds, with a fraction. \<^verbatim>\<open>NOW()\<close> is given
  in microseconds since the epoch; stored timestamps are in milliseconds.
\<close>

definition epochSince :: "int \<Rightarrow> timestamp \<Rightarrow> rat" where
  "epochSince nowMicros ts = of_int (nowMicros - 1000 * ts) / 1000000"

text \<open>
  The type INTEGER has 32 bits. A value outside its range raises error 22003, in a cast
  as in a multiplication; a text that is not an integer raises 22P02 in the cast.
\<close>

definition inInt4 :: "int \<Rightarrow> bool" where
  "inInt4 n \<longleftrightarrow> - 2147483648 \<le> n \<and> n \<le> 2147483647"

definition int4 :: "int \<Rightarrow> sql_error + int" where
  "int4 n = (if inInt4 n then Inr n else Inl NumericValueOutOfRange)"

definition textToInteger :: "json_text \<Rightarrow> sql_error + int option" where
  "textToInteger v =
     (case v of
        Absent \<Rightarrow> Inr None
      | IntegerText n \<Rightarrow> (case int4 n of Inl e \<Rightarrow> Inl e | Inr k \<Rightarrow> Inr (Some k))
      | OtherText \<Rightarrow> Inl InvalidTextRepresentation)"

text \<open>
  \<^verbatim>\<open>x::INTEGER / 3600\<close>: the cast rounds to the nearest integer (halves away from
  zero), the division of integers truncates towards zero.
\<close>

definition roundHalfAway :: "rat \<Rightarrow> int" where
  "roundHalfAway x = (if 0 \<le> x then \<lfloor>x + 1 / 2\<rfloor> else - \<lfloor>- x + 1 / 2\<rfloor>)"

definition castInteger :: "rat \<Rightarrow> sql_error + int" where
  "castInteger x = int4 (roundHalfAway x)"

definition pgDiv :: "int \<Rightarrow> int \<Rightarrow> int" where
  "pgDiv a b = sgn a * sgn b * (\<bar>a\<bar> div \<bar>b\<bar>)"

definition coalesce :: "'a option \<Rightarrow> 'a \<Rightarrow> 'a" where
  "coalesce v dflt = (case v of Some x \<Rightarrow> x | None \<Rightarrow> dflt)"

text \<open>The two \<^verbatim>\<open>CASE\<close> expressions: the bounds are constants, in seconds.\<close>

definition depositSeverity :: "rat \<Rightarrow> alert_severity" where
  "depositSeverity age =
     (if age > 172800 then CRITICAL else if age > 86400 then ERROR else WARNING)"

definition updateSeverity :: "rat \<Rightarrow> alert_severity" where
  "updateSeverity age =
     (if age > 1209600 then CRITICAL else if age > 604800 then ERROR else WARNING)"

text \<open>
  \<^verbatim>\<open>COALESCE((sla_settings->>key)::INTEGER * factor, dflt)\<close>: the cast and the product
  are computed in INTEGER and either may raise.
\<close>

definition limitOf :: "int \<Rightarrow> int \<Rightarrow> json_text \<Rightarrow> sql_error + rat" where
  "limitOf factor dflt v =
     (case textToInteger v of
        Inl e \<Rightarrow> Inl e
      | Inr None \<Rightarrow> Inr (of_int dflt)
      | Inr (Some h) \<Rightarrow>
          (case int4 (h * factor) of Inl e \<Rightarrow> Inl e | Inr x \<Rightarrow> Inr (of_int x)))"

definition depositLimit :: "bank \<Rightarrow> sql_error + rat" where
  "depositLimit b = limitOf 3600 172800 (b_depositHours b)"

definition updateLimit :: "bank \<Rightarrow> sql_error + rat" where
  "updateLimit b = limitOf 86400 604800 (b_updateDays b)"

definition depositBreach :: "int \<Rightarrow> collection \<Rightarrow> int \<Rightarrow> breach" where
  "depositBreach nowMicros c seconds =
     \<lparr> account_id = c_accountId c,
       breach_type = ''DEPOSIT_DELAY'',
       breach_hours = pgDiv seconds 3600,
       severity = depositSeverity (epochSince nowMicros (c_createdAt c)) \<rparr>"

definition lastContact :: "account \<Rightarrow> timestamp" where
  "lastContact a = coalesce (a_lastContactDate a) (a_createdAt a)"

definition updateBreach :: "int \<Rightarrow> account \<Rightarrow> int \<Rightarrow> breach" where
  "updateBreach nowMicros a seconds =
     \<lparr> account_id = a_id a,
       breach_type = ''NO_UPDATE'',
       breach_hours = pgDiv seconds 3600,
       severity = updateSeverity (epochSince nowMicros (lastContact a)) \<rparr>"

text \<open>The rows of a query, or the first error raised while computing them.\<close>

fun collect :: "('e + 'a list) list \<Rightarrow> 'e + 'a list" where
  "collect [] = Inr []"
| "collect (x # xs) =
     (case x of
        Inl e \<Rightarrow> Inl e
      | Inr ys \<Rightarrow> (case collect xs of Inl e \<Rightarrow> Inl e | Inr zs \<Rightarrow> Inr (ys @ zs)))"

text \<open>
  The first query on one combination of a collection, an account and a bank: pending
  cash and bank-deposit collections older than the bank's limit. PostgreSQL does not fix
  the order in which the conditions of a query are evaluated, so whether the bank's limit
  is computed, and may raise, on a combination that fails the other conditions is the
  parameter \<open>eager\<close>: when it is set the limit is computed on every combination, otherwise
  only on those that satisfy the join conditions and the conditions on status and type.
  The cast of the age in the select list is computed for the rows that are returned.
\<close>

definition depositRow ::
    "bool \<Rightarrow> int \<Rightarrow> collection \<Rightarrow> account \<Rightarrow> bank \<Rightarrow> sql_error + breach list" where
  "depositRow eager nowMicros c a b =
     (let selected = (c_accountId c = a_id a \<and> a_bankId a = b_id b \<and>
                      c_status c = PENDING \<and>
                      (c_type c = CASH \<or> c_type c = BANK_DEPOSIT))
      in if eager \<or> selected then
           (case depositLimit b of
              Inl e \<Rightarrow> Inl e
            | Inr limit \<Rightarrow>
                if selected \<and> epochSince nowMicros (c_createdAt c) > limit then
                  (case castInteger (epochSince nowMicros (c_createdAt c)) of
                     Inl e \<Rightarrow> Inl e
                   | Inr seconds \<Rightarrow> Inr [depositBreach nowMicros c seconds])
                else Inr [])
         else Inr [])"

definition depositBreaches :: "bool \<Rightarrow> int \<Rightarrow> sla_tables \<Rightarrow> sql_error + breach list" where
  "depositBreaches eager nowMicros t =
     collect (concat (map (\<lambda>c.
       concat (map (\<lambda>a.
         map (\<lambda>b. depositRow eager nowMicros c a b) (t_banks t))
       (t_accounts t)))
     (t_collections t)))"

text \<open>The second query: accounts without contact for longer than the bank's limit.\<close>

definition updateRow :: "bool \<Rightarrow> int \<Rightarrow> account \<Rightarrow> bank \<Rightarrow> sql_error + breach list" where
  "updateRow eager nowMicros a b =
     (if eager \<or> a_bankId a = b_id b then
        (case updateLimit b of
           Inl e \<Rightarrow> Inl e
         | Inr limit \<Rightarrow>
             if a_bankId a = b_id b \<and> epochSince nowMicros (lastContact a) > limit then
               (case castInteger (epochSince nowMicros (lastContact a)) of
                  Inl e \<Rightarrow> Inl e
                | Inr seconds \<Rightarrow> Inr [updateBreach nowMicros a seconds])
             else Inr [])
      else Inr [])"

definition updateBreaches :: "bool \<Rightarrow> int \<Rightarrow> sla_tables \<Rightarrow> sql_error + breach list" where
  "updateBreaches eager nowMicros t =
     collect (concat (map (\<lambda>a. map (\<lambda>b. updateRow eager nowMicros a b) (t_banks t))
       (t_accounts t)))"

text \<open>
  The function: the rows of the first query followed by those of the second. An error
  raised in either query ends the function, and no row is returned.
\<close>

definition check_sla_breaches :: "bool \<Rightarrow> int \<Rightarrow> sla_tables \<Rightarrow> sql_error + breach list" where
  "check_sla_breaches eager nowMicros t =
     (case depositBreaches eager nowMicros t of
        Inl e \<Rightarrow> Inl e
      | Inr deposits \<Rightarrow>
          (case updateBreaches eager nowMicros t of
             Inl e \<Rightarrow> Inl e
           | Inr updates \<Rightarrow> Inr (deposits @ updates)))"

text \<open>
  Tables on which no evaluation order raises: every SLA setting is absent or an integer
  that stays within INTEGER when converted to seconds, and every age fits the cast.
\<close>

definition safeSetting :: "int \<Rightarrow> json_text \<Rightarrow> bool" where
  "safeSetting factor v =
     (case v of
        Absent \<Rightarrow> True
      | IntegerText h \<Rightarrow> inInt4 h \<and> inInt4 (h * factor)
      | OtherText \<Rightarrow> False)"

definition safeTables :: "int \<Rightarrow> sla_tables \<Rightarrow> bool" where
  "safeTables nowMicros t \<longleftrightarrow>
     list_all (\<lambda>b. safeSetting 3600 (b_depositHours b) \<and> safeSetting 86400 (b_updateDays b))
       (t_banks t) \<and>
     list_all (\<lambda>c. inInt4 (roundHalfAway (epochSince nowMicros (c_createdAt c))))
       (t_collections t) \<and>
     list_all (\<lambda>a. inInt4 (roundHalfAway (epochSince nowMicros (lastContact a))))
       (t_accounts t)"

text \<open>The limit of a bank in seconds when its setting is safe.\<close>

definition limitSeconds :: "int \<Rightarrow> int \<Rightarrow> json_text \<Rightarrow> int" where
  "limitSeconds factor dflt v = (case v of IntegerText h \<Rightarrow> h * factor | _ \<Rightarrow> dflt)"

section \<open>Alert processing: alertWorker\<close>

datatype alert_type = SLA_BREACH | VARIANCE | MISSED_PTP | HIGH_OVERDUE | NO_UPDATE | SYSTEM

datatype user_role = ADMIN | AGENT | AUDITOR

text \<open>
  The job's \<^verbatim>\<open>data\<close>: each field is the text that the template strings of the title and
  the description interpolate.
\<close>

record alert_data =
  fileNo :: string
  daysSinceUpdate :: string
  ptpDate :: string
  ptpAmount :: string
  overdueAmount :: string

record alert_job =
  j_type :: alert_type
  j_accountId :: "nat option"
  j_agentId :: "nat option"
  j_data :: alert_data

record alert =
  al_id :: nat
  al_type :: alert_type
  al_title :: string
  al_description :: string
  al_severity :: alert_severity
  al_accountId :: "nat option"
  al_agentId :: "nat option"
  al_data :: alert_data
  al_createdAt :: timestamp

record user =
  u_email :: string
  u_role :: user_role
  u_isActive :: bool

record agent =
  ag_id :: nat
  ag_userEmail :: string

record email_job =
  e_to :: "string list"
  e_subject :: string
  e_template :: string
  e_alertType :: alert_type
  e_title :: string
  e_description :: string
  e_severity :: alert_severity
  e_alertData :: alert_data

record worker_state =
  alerts :: "alert list"
  users :: "user list"
  agents :: "agent list"
  emailQueue :: "email_job list"

fun typeName :: "alert_type \<Rightarrow> string" where
  "typeName SLA_BREACH = ''SLA_BREACH''"
| "typeName VARIANCE = ''VARIANCE''"
| "typeName MISSED_PTP = ''MISSED_PTP''"
| "typeName HIGH_OVERDUE = ''HIGH_OVERDUE''"
| "typeName NO_UPDATE = ''NO_UPDATE''"
| "typeName SYSTEM = ''SYSTEM''"

text \<open>The taka sign of the descriptions, as its three bytes in UTF-8.\<close>

definition taka :: string where
  "taka = [CHR 0xE0, CHR 0xA7, CHR 0xB3]"

fun generateAlertTitle :: "alert_type \<Rightarrow> alert_data \<Rightarrow> string" where
  "generateAlertTitle SLA_BREACH d = ''SLA Breach: Account '' @ fileNo d"
| "generateAlertTitle MISSED_PTP d = ''Missed PTP: Account '' @ fileNo d"
| "generateAlertTitle HIGH_OVERDUE d = ''High Overdue Amount: Account '' @ fileNo d"
| "generateAlertTitle NO_UPDATE d = ''No Recent Updates: Account '' @ fileNo d"
| "generateAlertTitle ty d = ''System Alert: '' @ typeName ty"

fun generateAlertDescription :: "alert_type \<Rightarrow> alert_data \<Rightarrow> string" where
  "generateAlertDescription SLA_BREACH d =
     ''Account '' @ fileNo d @ '' has breached SLA requirements. No update for '' @
     daysSinceUpdate d @ '' days.''"
| "generateAlertDescription MISSED_PTP d =
     ''Account '' @ fileNo d @ '' missed PTP date '' @ ptpDate d @ ''. Amount: '' @ taka @
     ptpAmount d"
| "generateAlertDescription HIGH_OVERDUE d =
     ''Account '' @ fileNo d @ '' has high overdue amount: '' @ taka @ overdueAmount d"
| "generateAlertDescription ty d = ''Alert triggered for '' @ typeName ty"

fun getAlertSeverity :: "alert_type \<Rightarrow> alert_severity" where
  "getAlertSeverity SLA_BREACH = ERROR"
| "getAlertSeverity MISSED_PTP = ERROR"
| "getAlertSeverity HIGH_OVERDUE = CRITICAL"
| "getAlertSeverity NO_UPDATE = WARNING"
| "getAlertSeverity VARIANCE = WARNING"
| "getAlertSeverity ty = INFO"

text \<open>\<^verbatim>\<open>[...new Set(xs)]\<close>: the first occurrence of each element, in order.\<close>

definition uniqueInOrder :: "'a list \<Rightarrow> 'a list" where
  "uniqueInOrder xs = rev (remdups (rev xs))"

definition getAlertRecipients :: "alert_type \<Rightarrow> nat option \<Rightarrow> nat option \<Rightarrow> worker_state \<Rightarrow> string list" where
  "getAlertRecipients ty accountId agentId st =
     (let admins = map u_email (filter (\<lambda>u. u_role u = ADMIN \<and> u_isActive u) (users st));
          agentMail =
            (case agentId of
               None \<Rightarrow> []
             | Some i \<Rightarrow>
                 (case List.find (\<lambda>g. ag_id g = i) (agents st) of
                    None \<Rightarrow> []
                  | Some g \<Rightarrow> if ag_userEmail g = [] then [] else [ag_userEmail g]))
      in uniqueInOrder (admins @ agentMail))"

text \<open>
  The processor of the \<^verbatim>\<open>alert-processing\<close> queue: it creates the alert row, then
  queues one e-mail when there is a recipient. It reads no earlier alert.
\<close>

definition alertWorker :: "timestamp \<Rightarrow> alert_job \<Rightarrow> worker_state \<Rightarrow> worker_state" where
  "alertWorker now job st =
     (let a = \<lparr> al_id = freshId (map al_id (alerts st)),
                al_type = j_type job,
                al_title = generateAlertTitle (j_type job) (j_data job),
                al_description = generateAlertDescription (j_type job) (j_data job),
                al_severity = getAlertSeverity (j_type job),
                al_accountId = j_accountId job,
                al_agentId = j_agentId job,
                al_data = j_data job,
                al_createdAt = now \<rparr>;
          st1 = st\<lparr> alerts := alerts st @ [a] \<rparr>;
          recipients = getAlertRecipients (j_type job) (j_accountId job) (j_agentId job) st1
      in if recipients \<noteq> [] then
           st1\<lparr> emailQueue := emailQueue st1 @
                  [\<lparr> e_to = recipients,
                     e_subject = ''Alert: '' @ al_title a,
                     e_template = ''alert-notification'',
                     e_alertType = j_type job,
                     e_title = al_title a,
                     e_description = al_description a,
                     e_severity = al_severity a,
                     e_alertData = j_data job \<rparr>] \<rparr>
         else st1)"

text \<open>The worker on a list of jobs, each with the time at which it is processed.\<close>

fun processJobs :: "(timestamp \<times> alert_job) list \<Rightarrow> worker_state \<Rightarrow> worker_state" where
  "processJobs [] st = st"
| "processJobs ((now, job) # jobs) st = processJobs jobs (alertWorker now job st)"



section \<open>SLA sweep: the scheduled check of the worker process\<close>

text \<open>
  \<^verbatim>\<open>worker/src/index.ts\<close>. The process holds its queues and a logger; it has no handle
  on the database and none on the \<^verbatim>\<open>alert-processing\<close> queue that \<open>alertWorker\<close>
  consumes. A job's data is what \<^verbatim>\<open>const { type, data } = job.data\<close> reads: \<open>jd_type\<close>
  is \<open>None\<close> when the object has no \<^verbatim>\<open>type\<close>.
\<close>

record job_data =
  jd_type :: "string option"
  jd_date :: "timestamp option"

record queued_job =
  qj_id :: nat
  qj_name :: string
  qj_data :: job_data

datatype log_line =
    SchedulingDailySlaChecks
  | ProcessingAlertJob nat
  | CheckingSlaBreaches
  | CheckingMissedPtps
  | CheckingNoUpdates
  | UnknownAlertJobType "string option"
  | AlertJobCompleted nat

text \<open>
  The state around a sweep: the waiting jobs of the \<^verbatim>\<open>alerts\<close> queue, the log, and
  the two places where an alert candidate would appear, the \<^verbatim>\<open>alert-processing\<close>
  queue and the alert table of the backend. The queue numbers its jobs with a counter.
\<close>

record sweep_state =
  alertsQueue :: "queued_job list"
  nextJobId :: nat
  logged :: "log_line list"
  candidates :: "alert_job list"
  backend :: worker_state

definition logInfo :: "log_line \<Rightarrow> sweep_state \<Rightarrow> sweep_state" where
  "logInfo line st = st\<lparr> logged := logged st @ [line] \<rparr>"

text \<open>The three checks are placeholders: each writes its log line and returns.\<close>

definition checkSLABreaches :: "sweep_state \<Rightarrow> sweep_state" where
  "checkSLABreaches st = logInfo CheckingSlaBreaches st"

definition checkMissedPTPs :: "sweep_state \<Rightarrow> sweep_state" where
  "checkMissedPTPs st = logInfo CheckingMissedPtps st"

definition checkNoUpdates :: "sweep_state \<Rightarrow> sweep_state" where
  "checkNoUpdates st = logInfo CheckingNoUpdates st"

text \<open>
  The processor of the \<^verbatim>\<open>alerts\<close> queue (\<^verbatim>\<open>alertWorker\<close> of the worker process) with
  its \<^verbatim>\<open>completed\<close> handler.
\<close>

definition alertsWorker :: "queued_job \<Rightarrow> sweep_state \<Rightarrow> sweep_state" where
  "alertsWorker job st =
     (let st1 = logInfo (ProcessingAlertJob (qj_id job)) st;
          st2 = (case jd_type (qj_data job) of
                   Some ty \<Rightarrow>
                     if ty = ''sla_breach_check'' then checkSLABreaches st1
                     else if ty = ''missed_ptp_check'' then checkMissedPTPs st1
                     else if ty = ''no_update_check'' then checkNoUpdates st1
                     else logInfo (UnknownAlertJobType (Some ty)) st1
                 | None \<Rightarrow> logInfo (UnknownAlertJobType None) st1)
      in logInfo (AlertJobCompleted (qj_id job)) st2)"

text \<open>
  The cron callback of 09:00:
  \<^verbatim>\<open>alertQueue.add('sla_breach_check', { date: new Date() })\<close>. The name of the job is
  \<^verbatim>\<open>sla_breach_check\<close>; its data has a date and no type.
\<close>

definition scheduleSlaCheck :: "timestamp \<Rightarrow> sweep_state \<Rightarrow> sweep_state" where
  "scheduleSlaCheck now st =
     (let st1 = logInfo SchedulingDailySlaChecks st
      in st1\<lparr> alertsQueue := alertsQueue st1 @
                [\<lparr> qj_id = nextJobId st1,
                   qj_name = ''sla_breach_check'',
                   qj_data = \<lparr> jd_type = None, jd_date = Some now \<rparr> \<rparr>],
              nextJobId := Suc (nextJobId st1) \<rparr>)"

fun runJobs :: "queued_job list \<Rightarrow> sweep_state \<Rightarrow> sweep_state" where
  "runJobs [] st = st"
| "runJobs (job # jobs) st = runJobs jobs (alertsWorker job st)"

text \<open>One run of the sweep: the callback, then the worker takes every waiting job.\<close>

definition slaSweep :: "timestamp \<Rightarrow> sweep_state \<Rightarrow> sweep_state" where
  "slaSweep now st =
     (let st1 = scheduleSlaCheck now st
      in runJobs (alertsQueue st1) (st1\<lparr> alertsQueue := [] \<rparr>))"

fun sweeps :: "timestamp list \<Rightarrow> sweep_state \<Rightarrow> sweep_state" where
  "sweeps [] st = st"
| "sweeps (now # runs) st = sweeps runs (slaSweep now st)"



section \<open>Example stores and payloads\<close>

definition t0 :: timestamp where
  "t0 = 1707409800000"

definition hour :: int where
  "hour = 60 * 60 * 1000"

definition exParseDate :: "string \<Rightarrow> timestamp option" where
  "exParseDate str = (if str = ''2024-02-08T16:30:00.000Z'' then Some t0 else None)"

definition exCtx :: ctx where
  "exCtx = \<lparr> uniqueKey = False, parseDate = exParseDate,
             clockLog = t0 + 1000, clockMatch = t0 + 1200 \<rparr>"

definition exCtxUnique :: ctx where
  "exCtxUnique = exCtx\<lparr> uniqueKey := True \<rparr>"

definition exEvent :: webhook_data where
  "exEvent = \<lparr> wd_txnId = ''X1'', wd_amount = 10000, wd_currency = ''BDT'',
               wd_status = ''SUCCESS'', wd_date = ''2024-02-08T16:30:00.000Z'',
               wd_customerMobile = None, wd_reference = None, wd_signature = ''sig'' \<rparr>"

definition exEvent2 :: webhook_data where
  "exEvent2 = exEvent\<lparr> wd_txnId := ''X2'' \<rparr>"

text \<open>Two pending bKash collections of the same amount; \<open>colA\<close> was created first.\<close>

definition colA :: collection where
  "colA = \<lparr> c_id = 1, c_accountId = 10, c_type = BKASH, c_amount = 10000,
            c_collectionDate = t0 - hour, c_txnId = Some ''AGENT-A'', c_status = PENDING,
            c_isMatched = False, c_webhookData = None, c_createdAt = t0 - 2 * hour \<rparr>"

definition colB :: collection where
  "colB = colA\<lparr> c_id := 2, c_accountId := 11, c_txnId := Some ''AGENT-B'',
                 c_createdAt := t0 - hour \<rparr>"

text \<open>A pending bKash collection that carries the event's id, with another amount.\<close>

definition colX :: collection where
  "colX = colA\<lparr> c_id := 3, c_accountId := 12, c_txnId := Some ''X1'', c_amount := 7000,
                 c_createdAt := t0 \<rparr>"

definition dbOf :: "collection list \<Rightarrow> db" where
  "dbOf cs = \<lparr> collections = cs, webhookLogs = [], reconciliations = [] \<rparr>"

text \<open>
  A gateway environment for the examples. The body is taken as already serialised, and
  \<open>exDigest\<close> stands in for HMAC-SHA256: it returns 32 bytes.
\<close>

definition exDigest :: "string \<Rightarrow> string \<Rightarrow> byte list" where
  "exDigest key msg = replicate 32 (word_of_nat (length key + length msg))"

definition exParseInt :: "string \<Rightarrow> int option" where
  "exParseInt str = (if str = ''1707409800'' then Some 1707409800 else None)"

definition exEnv :: "string gateway_env" where
  "exEnv = \<lparr> BKASH_WEBHOOK_SECRET = Some ''k'', NAGAD_WEBHOOK_SECRET = Some ''n'',
             hmacSha256 = exDigest, jsonStringify = (\<lambda>b. b), parseInt = exParseInt,
             dateNow = t0 + 1000,
             bkashWebhookSchema = (\<lambda>b. Some exEvent), nagadWebhookSchema = (\<lambda>b. Some exEvent) \<rparr>"

definition exRequest :: "string \<Rightarrow> string request" where
  "exRequest sg = \<lparr> headers = (\<lambda>h. if h = ''x-signature'' then Some sg else None),
                    body = ''{}'' \<rparr>"

text \<open>
  The tables for the sweep: one account of one bank with a pending cash collection that
  was created at \<open>t0\<close>. The bank's deposit limit is the argument, in hours.
\<close>

definition cashCol :: collection where
  "cashCol = \<lparr> c_id = 7, c_accountId = 10, c_type = CASH, c_amount = 5000,
               c_collectionDate = t0, c_txnId = None, c_status = PENDING,
               c_isMatched = False, c_webhookData = None, c_createdAt = t0 \<rparr>"

definition exTables :: "int \<Rightarrow> sla_tables" where
  "exTables h =
     \<lparr> t_collections = [cashCol],
       t_accounts = [\<lparr> a_id = 10, a_bankId = 1, a_lastContactDate = Some t0, a_createdAt = t0 \<rparr>],
       t_banks = [\<lparr> b_id = 1, b_depositHours = IntegerText h, b_updateDays = IntegerText 7 \<rparr>] \<rparr>"

text \<open>\<^verbatim>\<open>NOW()\<close> fifty hours after \<open>t0\<close>, in microseconds.\<close>

definition fiftyHoursLater :: int where
  "fiftyHoursLater = 1000 * (t0 + 50 * hour)"



section \<open>Properties\<close>

lemmas ex_defs = exCtx_def exCtxUnique_def exEvent_def exEvent2_def colA_def colB_def colX_def dbOf_def
  t0_def hour_def exParseDate_def
lemmas op_defs = processBkashWebhook_def processWebhook_def createWebhookLog_def duplicateKey_def
  freshId_def findMatch_def findFirst_def findFirstOrderBy_def exactWhere_def fuzzyWhere_def
  isSuccessStatus_def claimMatch_def updateCollection_def claimData_def createReconciliation_def
  matchedReconciliation_def unmatchedResult_def

subsection \<open>Searches\<close>

lemma findFirst_Some: "findFirst wh rows = Some c \<Longrightarrow> c \<in> set rows \<and> wh c"
  unfolding findFirst_def by (induction rows) (auto split: if_splits)

lemma findFirst_None: "findFirst wh rows = None \<longleftrightarrow> \<not> list_ex wh rows"
  unfolding findFirst_def by (induction rows) (auto split: if_splits)

lemma findFirst_ex: "list_ex wh rows \<Longrightarrow> \<exists>c. findFirst wh rows = Some c"
  using findFirst_None [of wh rows] by (cases "findFirst wh rows") auto

lemma findFirstOrderBy_Some:
  assumes "findFirstOrderBy key wh rows = Some m"
  shows "m \<in> set rows \<and> wh m \<and> (\<forall>c\<in>set rows. wh c \<longrightarrow> key m \<le> key c)"
proof -
  from assms obtain rest where srt: "sort_key key (filter wh rows) = m # rest"
    unfolding findFirstOrderBy_def by (auto split: list.splits)
  have "set (sort_key key (filter wh rows)) = set (filter wh rows)" by simp
  with srt have mem: "set (filter wh rows) = insert m (set rest)" by simp
  have "sorted (map key (sort_key key (filter wh rows)))" by simp
  with srt have le: "\<forall>c\<in>set rest. key m \<le> key c" by simp
  from mem have "m \<in> set (filter wh rows)" by simp
  moreover have "key m \<le> key c" if "c \<in> set rows" "wh c" for c
  proof -
    from that have "c \<in> set (filter wh rows)" by simp
    with mem have "c = m \<or> c \<in> set rest" by auto
    with le show ?thesis by auto
  qed
  ultimately show ?thesis by auto
qed

lemma sort_key_Nil_iff: "sort_key key xs = [] \<longleftrightarrow> xs = []"
  using length_sort [of key xs] by (cases xs) (auto simp del: length_sort)

lemma findFirstOrderBy_None: "findFirstOrderBy key wh rows = None \<longleftrightarrow> filter wh rows = []"
  unfolding findFirstOrderBy_def by (auto simp: sort_key_Nil_iff split: list.splits)

subsection \<open>Store operations\<close>

lemma createWebhookLog_ok:
  assumes "\<not> (uniqueKey cx \<and> duplicateKey p d s)"
  shows "\<exists>l. createWebhookLog cx p d s = Inr (l, s\<lparr> webhookLogs := webhookLogs s @ [l] \<rparr>)"
  using assms unfolding createWebhookLog_def Let_def by simp

lemma createWebhookLog_Inr:
  assumes "createWebhookLog cx p d s = Inr (l, s1)"
  shows "s1 = s\<lparr> webhookLogs := webhookLogs s @ [l] \<rparr>"
  using assms unfolding createWebhookLog_def Let_def by (auto split: if_splits)

lemma createWebhookLog_Inl:
  assumes "createWebhookLog cx p d s = Inl e"
  shows "e = UniqueConstraintViolation \<and> uniqueKey cx \<and> duplicateKey p d s"
  using assms unfolding createWebhookLog_def Let_def by (auto split: if_splits)

lemma claimMatch_found:
  assumes "m \<in> set (collections s)"
  shows "claimMatch cx d l m s =
     (Inr \<lparr> matched = True, collectionId = Some (c_id m), webhookLogId = wl_id l \<rparr>,
      s\<lparr> collections := map (\<lambda>c. if c_id c = c_id m then claimData d c else c) (collections s),
         reconciliations := reconciliations s @ [matchedReconciliation cx d l m] \<rparr>)"
proof -
  from assms have "list_ex (\<lambda>c. c_id c = c_id m) (collections s)"
    by (auto simp: list_ex_iff)
  then show ?thesis
    unfolding claimMatch_def updateCollection_def createReconciliation_def by simp
qed

lemma findMatch_Some:
  assumes "findMatch cx p d s = Inr (Some m)"
  shows "m \<in> set (collections s) \<and> c_status m = PENDING \<and> c_type m = p"
  using assms unfolding findMatch_def
  by (auto split: option.splits dest!: findFirst_Some findFirstOrderBy_Some
           simp: exactWhere_def fuzzyWhere_def)

text \<open>Every way a call can end, as a case distinction on the store it leaves.\<close>

lemma processWebhook_cases:
  obtains
    (rejected) "processWebhook p cx d s = (Inl UniqueConstraintViolation, s)"
      "uniqueKey cx" "duplicateKey p d s"
  | (unmatched) l where "createWebhookLog cx p d s = Inr (l, s\<lparr> webhookLogs := webhookLogs s @ [l] \<rparr>)"
      "processWebhook p cx d s = (Inr (unmatchedResult l), s\<lparr> webhookLogs := webhookLogs s @ [l] \<rparr>)"
  | (baddate) l where "createWebhookLog cx p d s = Inr (l, s\<lparr> webhookLogs := webhookLogs s @ [l] \<rparr>)"
      "processWebhook p cx d s = (Inl InvalidDateValue, s\<lparr> webhookLogs := webhookLogs s @ [l] \<rparr>)"
  | (claimed) l m where "createWebhookLog cx p d s = Inr (l, s\<lparr> webhookLogs := webhookLogs s @ [l] \<rparr>)"
      "isSuccessStatus (wd_status d)"
      "findMatch cx p d s = Inr (Some m)"
      "m \<in> set (collections s)" "c_status m = PENDING" "c_type m = p"
      "processWebhook p cx d s =
         (Inr \<lparr> matched = True, collectionId = Some (c_id m), webhookLogId = wl_id l \<rparr>,
          \<lparr> collections = map (\<lambda>c. if c_id c = c_id m then claimData d c else c) (collections s),
            webhookLogs = webhookLogs s @ [l],
            reconciliations = reconciliations s @ [matchedReconciliation cx d l m] \<rparr>)"
proof (cases "createWebhookLog cx p d s")
  case (Inl e)
  with createWebhookLog_Inl [OF Inl] rejected show thesis
    unfolding processWebhook_def by simp
next
  case (Inr ls)
  obtain l s1 where ls: "ls = (l, s1)" by (cases ls)
  with Inr have cr: "createWebhookLog cx p d s = Inr (l, s1)" by simp
  from createWebhookLog_Inr [OF cr] have s1: "s1 = s\<lparr> webhookLogs := webhookLogs s @ [l] \<rparr>" .
  have fm: "findMatch cx p d s1 = findMatch cx p d s"
    unfolding findMatch_def s1 by (simp split: option.splits)
  show thesis
  proof (cases "isSuccessStatus (wd_status d)")
    case False
    with cr s1 unmatched show thesis unfolding processWebhook_def by simp
  next
    case True
    show thesis
    proof (cases "findMatch cx p d s")
      case (Inl e)
      then have "e = InvalidDateValue"
        unfolding findMatch_def by (auto split: option.splits)
      with Inl True cr s1 fm baddate show thesis unfolding processWebhook_def by simp
    next
      case (Inr mo)
      show thesis
      proof (cases mo)
        case None
        with Inr True cr s1 fm unmatched show thesis unfolding processWebhook_def by simp
      next
        case (Some m)
        with Inr have f: "findMatch cx p d s = Inr (Some m)" by simp
        note props = findMatch_Some [OF f]
        then have "m \<in> set (collections s1)" unfolding s1 by simp
        from claimMatch_found [OF this, of cx d l]
        have "processWebhook p cx d s =
         (Inr \<lparr> matched = True, collectionId = Some (c_id m), webhookLogId = wl_id l \<rparr>,
          \<lparr> collections = map (\<lambda>c. if c_id c = c_id m then claimData d c else c) (collections s),
            webhookLogs = webhookLogs s @ [l],
            reconciliations = reconciliations s @ [matchedReconciliation cx d l m] \<rparr>)"
          unfolding processWebhook_def using cr True f fm by (simp add: s1)
        with claimed cr s1 True f props show thesis by blast
      qed
    qed
  qed
qed

lemma findMatch_webhookLogs [simp]:
  "findMatch cx p d (s\<lparr> webhookLogs := ls \<rparr>) = findMatch cx p d s"
  unfolding findMatch_def by (simp split: option.splits)

lemma processWebhook_claims:
  assumes ok: "isSuccessStatus (wd_status d)"
      and ins: "\<not> (uniqueKey cx \<and> duplicateKey p d s)"
      and fm: "findMatch cx p d s = Inr (Some m)"
  shows "\<exists>l. processWebhook p cx d s =
             (Inr \<lparr> matched = True, collectionId = Some (c_id m), webhookLogId = wl_id l \<rparr>,
              \<lparr> collections =
                   map (\<lambda>c. if c_id c = c_id m then claimData d c else c) (collections s),
                 webhookLogs = webhookLogs s @ [l],
                 reconciliations = reconciliations s @ [matchedReconciliation cx d l m] \<rparr>)"
proof -
  from createWebhookLog_ok [OF ins] obtain l where
    cr: "createWebhookLog cx p d s = Inr (l, s\<lparr> webhookLogs := webhookLogs s @ [l] \<rparr>)" by blast
  from findMatch_Some [OF fm] have "m \<in> set (collections (s\<lparr> webhookLogs := webhookLogs s @ [l] \<rparr>))"
    by simp
  from claimMatch_found [OF this, of cx d l] cr ok fm
  have "processWebhook p cx d s =
             (Inr \<lparr> matched = True, collectionId = Some (c_id m), webhookLogId = wl_id l \<rparr>,
              \<lparr> collections =
                   map (\<lambda>c. if c_id c = c_id m then claimData d c else c) (collections s),
                 webhookLogs = webhookLogs s @ [l],
                 reconciliations = reconciliations s @ [matchedReconciliation cx d l m] \<rparr>)"
    unfolding processWebhook_def by simp
  then show ?thesis by blast
qed

subsection \<open>Order of the two searches\<close>

text \<open>
  Claim C4. For a payload whose status is SUCCESS or COMPLETED, if some pending collection
  of the provider carries the payload's transaction id, the call claims such a collection
  and records the reconciliation as EXACT, whatever other collections satisfy the clause
  of the second search and whatever the payload's date is: the second search does not run.
\<close>

theorem exact_match_precedence:
  assumes ok: "isSuccessStatus (wd_status d)"
      and ins: "\<not> (uniqueKey cx \<and> duplicateKey p d s)"
      and ex: "list_ex (exactWhere p d) (collections s)"
  shows "\<exists>c (l::webhook_log). c \<in> set (collections s) \<and> exactWhere p d c \<and>
           findMatch cx p d s = Inr (Some c) \<and>
           fst (processWebhook p cx d s) =
             Inr \<lparr> matched = True, collectionId = Some (c_id c), webhookLogId = wl_id l \<rparr> \<and>
           reconciliations (snd (processWebhook p cx d s)) =
             reconciliations s @
               [\<lparr> r_collectionId = c_id c, r_webhookLogId = wl_id l, r_status = ''MATCHED'',
                  r_matchedAt = clockMatch cx, r_matchType = EXACT \<rparr>]"
proof -
  from findFirst_ex [OF ex] obtain c where ff: "findFirst (exactWhere p d) (collections s) = Some c"
    by blast
  note c = findFirst_Some [OF ff]
  from ff have fm: "findMatch cx p d s = Inr (Some c)" unfolding findMatch_def by simp
  from processWebhook_claims [OF ok ins fm] obtain l where
    pw: "processWebhook p cx d s =
             (Inr \<lparr> matched = True, collectionId = Some (c_id c), webhookLogId = wl_id l \<rparr>,
              \<lparr> collections =
                   map (\<lambda>x. if c_id x = c_id c then claimData d x else x) (collections s),
                 webhookLogs = webhookLogs s @ [l],
                 reconciliations = reconciliations s @ [matchedReconciliation cx d l c] \<rparr>)"
    by blast
  from c have "matchedReconciliation cx d l c =
        \<lparr> r_collectionId = c_id c, r_webhookLogId = wl_id l, r_status = ''MATCHED'',
          r_matchedAt = clockMatch cx, r_matchType = EXACT \<rparr>"
    unfolding matchedReconciliation_def exactWhere_def by simp
  with pw c fm show ?thesis
    by (intro exI [of _ c] exI [of _ l]) simp
qed

theorem exact_match_precedence_witness:
  "isSuccessStatus (wd_status exEvent) \<and>
   \<not> (uniqueKey exCtx \<and> duplicateKey BKASH exEvent (dbOf [colA, colB, colX])) \<and>
   list_ex (exactWhere BKASH exEvent) (collections (dbOf [colA, colB, colX])) \<and>
   list_ex (fuzzyWhere BKASH exEvent t0) (collections (dbOf [colA, colB, colX])) \<and>
   (\<exists>c (l::webhook_log). c \<in> set (collections (dbOf [colA, colB, colX])) \<and> exactWhere BKASH exEvent c \<and>
           findMatch exCtx BKASH exEvent (dbOf [colA, colB, colX]) = Inr (Some c) \<and>
           fst (processWebhook BKASH exCtx exEvent (dbOf [colA, colB, colX])) =
             Inr \<lparr> matched = True, collectionId = Some (c_id c), webhookLogId = wl_id l \<rparr> \<and>
           reconciliations (snd (processWebhook BKASH exCtx exEvent (dbOf [colA, colB, colX]))) =
             reconciliations (dbOf [colA, colB, colX]) @
               [\<lparr> r_collectionId = c_id c, r_webhookLogId = wl_id l, r_status = ''MATCHED'',
                  r_matchedAt = clockMatch exCtx, r_matchType = EXACT \<rparr>])"
proof -
  have h1: "isSuccessStatus (wd_status exEvent)"
    by (simp add: ex_defs isSuccessStatus_def)
  have h2: "\<not> (uniqueKey exCtx \<and> duplicateKey BKASH exEvent (dbOf [colA, colB, colX]))"
    by (simp add: ex_defs)
  have h3: "list_ex (exactWhere BKASH exEvent) (collections (dbOf [colA, colB, colX]))"
    by (simp add: ex_defs exactWhere_def)
  have h4: "list_ex (fuzzyWhere BKASH exEvent t0) (collections (dbOf [colA, colB, colX]))"
    by (simp add: ex_defs fuzzyWhere_def)
  from exact_match_precedence [OF h1 h2 h3] h1 h2 h3 h4 show ?thesis by blast
qed

text \<open>
  Claim C5. For a payload whose status is SUCCESS or COMPLETED, when the first search
  finds nothing and two or more collections satisfy the clause of the second search, the
  call claims one whose \<^verbatim>\<open>createdAt\<close> is the least among them: that row, and no
  row with another id, is rewritten with the event's transaction id, flagged as matched
  and approved, and a FUZZY reconciliation naming it is recorded.
\<close>

theorem fuzzy_fifo_tie_break:
  assumes ok: "isSuccessStatus (wd_status d)"
      and ins: "\<not> (uniqueKey cx \<and> duplicateKey p d s)"
      and noexact: "\<not> list_ex (exactWhere p d) (collections s)"
      and pd: "parseDate cx (wd_date d) = Some t"
      and cand: "2 \<le> length (filter (fuzzyWhere p d t) (collections s))"
  shows "\<exists>m (l::webhook_log). m \<in> set (collections s) \<and> fuzzyWhere p d t m \<and>
           (\<forall>c\<in>set (collections s). fuzzyWhere p d t c \<longrightarrow> c_createdAt m \<le> c_createdAt c) \<and>
           processWebhook p cx d s =
             (Inr \<lparr> matched = True, collectionId = Some (c_id m), webhookLogId = wl_id l \<rparr>,
              \<lparr> collections =
                   map (\<lambda>c. if c_id c = c_id m
                             then c\<lparr> c_txnId := Some (wd_txnId d), c_isMatched := True,
                                    c_webhookData := Some d, c_status := APPROVED \<rparr>
                             else c)
                     (collections s),
                 webhookLogs = webhookLogs s @ [l],
                 reconciliations =
                   reconciliations s @
                     [\<lparr> r_collectionId = c_id m, r_webhookLogId = wl_id l,
                        r_status = ''MATCHED'', r_matchedAt = clockMatch cx,
                        r_matchType = FUZZY \<rparr>] \<rparr>) \<and>
           list_ex (\<lambda>c. c_id c = c_id m \<and> c_status c = APPROVED \<and> c_isMatched c)
             (collections (snd (processWebhook p cx d s))) \<and>
           list_all (\<lambda>c. c_id c = c_id m \<longrightarrow> c_status c = APPROVED \<and> c_isMatched c)
             (collections (snd (processWebhook p cx d s)))"
proof -
  from noexact have ff: "findFirst (exactWhere p d) (collections s) = None"
    by (simp add: findFirst_None)
  from cand have "filter (fuzzyWhere p d t) (collections s) \<noteq> []" by auto
  then obtain m where fo: "findFirstOrderBy c_createdAt (fuzzyWhere p d t) (collections s) = Some m"
    using findFirstOrderBy_None [of c_createdAt "fuzzyWhere p d t" "collections s"]
    by (cases "findFirstOrderBy c_createdAt (fuzzyWhere p d t) (collections s)") auto
  note m = findFirstOrderBy_Some [OF fo]
  from ff pd fo have fm: "findMatch cx p d s = Inr (Some m)" unfolding findMatch_def by simp
  from processWebhook_claims [OF ok ins fm] obtain l where
    pw: "processWebhook p cx d s =
             (Inr \<lparr> matched = True, collectionId = Some (c_id m), webhookLogId = wl_id l \<rparr>,
              \<lparr> collections =
                   map (\<lambda>c. if c_id c = c_id m then claimData d c else c) (collections s),
                 webhookLogs = webhookLogs s @ [l],
                 reconciliations = reconciliations s @ [matchedReconciliation cx d l m] \<rparr>)"
    by blast
  have "c_txnId m \<noteq> Some (wd_txnId d)"
  proof
    assume "c_txnId m = Some (wd_txnId d)"
    with m have "m \<in> set (collections s)" "exactWhere p d m"
      by (simp_all add: exactWhere_def fuzzyWhere_def)
    then have "list_ex (exactWhere p d) (collections s)" unfolding list_ex_iff by blast
    with noexact show False by simp
  qed
  then have rec: "matchedReconciliation cx d l m =
      \<lparr> r_collectionId = c_id m, r_webhookLogId = wl_id l, r_status = ''MATCHED'',
        r_matchedAt = clockMatch cx, r_matchType = FUZZY \<rparr>"
    unfolding matchedReconciliation_def by auto
  have cd: "claimData d = (\<lambda>c. c\<lparr> c_txnId := Some (wd_txnId d), c_isMatched := True,
                                   c_webhookData := Some d, c_status := APPROVED \<rparr>)"
    by (rule ext) (simp add: claimData_def)
  let ?s' = "snd (processWebhook p cx d s)"
  have cs': "collections ?s' =
      map (\<lambda>c. if c_id c = c_id m then claimData d c else c) (collections s)"
    unfolding pw by simp
  from m have "m \<in> set (collections s)" by simp
  from imageI [OF this, of "\<lambda>c. if c_id c = c_id m then claimData d c else c"]
  have "claimData d m \<in> set (collections ?s')" unfolding cs' by simp
  moreover have "c_id (claimData d m) = c_id m \<and> c_status (claimData d m) = APPROVED \<and>
      c_isMatched (claimData d m)"
    by (simp add: claimData_def)
  ultimately have ex: "list_ex (\<lambda>c. c_id c = c_id m \<and> c_status c = APPROVED \<and> c_isMatched c)
      (collections ?s')"
    unfolding list_ex_iff by blast
  have all: "list_all (\<lambda>c. c_id c = c_id m \<longrightarrow> c_status c = APPROVED \<and> c_isMatched c)
      (collections ?s')"
    unfolding cs' by (auto simp: list_all_iff claimData_def)
  from pw have pw': "processWebhook p cx d s =
             (Inr \<lparr> matched = True, collectionId = Some (c_id m), webhookLogId = wl_id l \<rparr>,
              \<lparr> collections =
                   map (\<lambda>c. if c_id c = c_id m
                             then c\<lparr> c_txnId := Some (wd_txnId d), c_isMatched := True,
                                    c_webhookData := Some d, c_status := APPROVED \<rparr>
                             else c)
                     (collections s),
                 webhookLogs = webhookLogs s @ [l],
                 reconciliations =
                   reconciliations s @
                     [\<lparr> r_collectionId = c_id m, r_webhookLogId = wl_id l,
                        r_status = ''MATCHED'', r_matchedAt = clockMatch cx,
                        r_matchType = FUZZY \<rparr>] \<rparr>)"
    unfolding rec cd by simp
  from m pw' ex all show ?thesis by blast
qed

theorem fuzzy_fifo_tie_break_witness:
  "isSuccessStatus (wd_status exEvent) \<and>
   \<not> (uniqueKey exCtx \<and> duplicateKey BKASH exEvent (dbOf [colB, colA])) \<and>
   \<not> list_ex (exactWhere BKASH exEvent) (collections (dbOf [colB, colA])) \<and>
   parseDate exCtx (wd_date exEvent) = Some t0 \<and>
   2 \<le> length (filter (fuzzyWhere BKASH exEvent t0) (collections (dbOf [colB, colA]))) \<and>
   c_createdAt colA < c_createdAt colB \<and>
   fst (processWebhook BKASH exCtx exEvent (dbOf [colB, colA])) =
     Inr \<lparr> matched = True, collectionId = Some (c_id colA), webhookLogId = 1 \<rparr> \<and>
   map (\<lambda>c. (c_id c, c_status c, c_isMatched c))
     (collections (snd (processWebhook BKASH exCtx exEvent (dbOf [colB, colA])))) =
     [(2, PENDING, False), (1, APPROVED, True)] \<and>
   (\<exists>m (l::webhook_log). m \<in> set (collections (dbOf [colB, colA])) \<and>
      fuzzyWhere BKASH exEvent t0 m \<and>
      (\<forall>c\<in>set (collections (dbOf [colB, colA])).
          fuzzyWhere BKASH exEvent t0 c \<longrightarrow> c_createdAt m \<le> c_createdAt c) \<and>
      list_ex (\<lambda>c. c_id c = c_id m \<and> c_status c = APPROVED \<and> c_isMatched c)
        (collections (snd (processWebhook BKASH exCtx exEvent (dbOf [colB, colA])))))"
proof -
  have h1: "isSuccessStatus (wd_status exEvent)"
    by (simp add: ex_defs isSuccessStatus_def)
  have h2: "\<not> (uniqueKey exCtx \<and> duplicateKey BKASH exEvent (dbOf [colB, colA]))"
    by (simp add: ex_defs)
  have h3: "\<not> list_ex (exactWhere BKASH exEvent) (collections (dbOf [colB, colA]))"
    by (simp add: ex_defs exactWhere_def)
  have h4: "parseDate exCtx (wd_date exEvent) = Some t0"
    by (simp add: ex_defs)
  have h5: "2 \<le> length (filter (fuzzyWhere BKASH exEvent t0) (collections (dbOf [colB, colA])))"
    by (simp add: ex_defs fuzzyWhere_def)
  have h6: "c_createdAt colA < c_createdAt colB" by (simp add: ex_defs)
  have h7: "fst (processWebhook BKASH exCtx exEvent (dbOf [colB, colA])) =
     Inr \<lparr> matched = True, collectionId = Some (c_id colA), webhookLogId = 1 \<rparr>"
    by (simp add: ex_defs op_defs Let_def)
  have h8: "map (\<lambda>c. (c_id c, c_status c, c_isMatched c))
     (collections (snd (processWebhook BKASH exCtx exEvent (dbOf [colB, colA])))) =
     [(2, PENDING, False), (1, APPROVED, True)]"
    by (simp add: ex_defs op_defs Let_def)
  from fuzzy_fifo_tie_break [OF h1 h2 h3 h4 h5] h1 h2 h3 h4 h5 h6 h7 h8 show ?thesis by blast
qed

subsection \<open>Window of the second search\<close>

text \<open>
  Claim C6. The date range of the second search is symmetric around the payment date and
  closed at both ends: a pending, unmatched collection of the provider with the payload's
  amount whose \<^verbatim>\<open>collectionDate\<close> lies exactly 24 hours before or after the payment
  date satisfies the \<^verbatim>\<open>where\<close> clause and is what the search returns; one hour
  further out, on either side, it does not and the search returns nothing.
\<close>

theorem window_boundary:
  assumes ty: "c_type c = p"
      and am: "c_amount c = wd_amount d"
      and st: "c_status c = PENDING"
      and um: "\<not> c_isMatched c"
      and nx: "c_txnId c \<noteq> Some (wd_txnId d)"
      and pd: "parseDate cx (wd_date d) = Some t"
  shows "fuzzyWhere p d t (c\<lparr> c_collectionDate := t - 24 * 60 * 60 * 1000 \<rparr>) \<and>
         fuzzyWhere p d t (c\<lparr> c_collectionDate := t + 24 * 60 * 60 * 1000 \<rparr>) \<and>
         \<not> fuzzyWhere p d t (c\<lparr> c_collectionDate := t - 25 * 60 * 60 * 1000 \<rparr>) \<and>
         \<not> fuzzyWhere p d t (c\<lparr> c_collectionDate := t + 25 * 60 * 60 * 1000 \<rparr>) \<and>
         fuzzyWhere p d t (c\<lparr> c_collectionDate := t + x \<rparr>) =
           fuzzyWhere p d t (c\<lparr> c_collectionDate := t - x \<rparr>) \<and>
         findMatch cx p d (s\<lparr> collections := [c\<lparr> c_collectionDate := t - 24 * 60 * 60 * 1000 \<rparr>] \<rparr>) =
           Inr (Some (c\<lparr> c_collectionDate := t - 24 * 60 * 60 * 1000 \<rparr>)) \<and>
         findMatch cx p d (s\<lparr> collections := [c\<lparr> c_collectionDate := t + 24 * 60 * 60 * 1000 \<rparr>] \<rparr>) =
           Inr (Some (c\<lparr> c_collectionDate := t + 24 * 60 * 60 * 1000 \<rparr>)) \<and>
         findMatch cx p d (s\<lparr> collections := [c\<lparr> c_collectionDate := t - 25 * 60 * 60 * 1000 \<rparr>] \<rparr>) =
           Inr None \<and>
         findMatch cx p d (s\<lparr> collections := [c\<lparr> c_collectionDate := t + 25 * 60 * 60 * 1000 \<rparr>] \<rparr>) =
           Inr None"
proof -
  have fz: "fuzzyWhere p d t (c\<lparr> c_collectionDate := y \<rparr>) \<longleftrightarrow> \<bar>y - t\<bar> \<le> 24 * 60 * 60 * 1000"
    for y
    using ty am st um unfolding fuzzyWhere_def by auto
  have fm: "findMatch cx p d (s\<lparr> collections := [c\<lparr> c_collectionDate := y \<rparr>] \<rparr>) =
      Inr (if \<bar>y - t\<bar> \<le> 24 * 60 * 60 * 1000 then Some (c\<lparr> c_collectionDate := y \<rparr>) else None)"
    for y
    using nx pd fz [of y]
    unfolding findMatch_def findFirst_def findFirstOrderBy_def exactWhere_def by simp
  show ?thesis unfolding fm fz by simp
qed

theorem window_boundary_witness:
  "c_type colA = BKASH \<and> c_amount colA = wd_amount exEvent \<and> c_status colA = PENDING \<and>
   \<not> c_isMatched colA \<and> c_txnId colA \<noteq> Some (wd_txnId exEvent) \<and>
   parseDate exCtx (wd_date exEvent) = Some t0 \<and>
   fuzzyWhere BKASH exEvent t0 (colA\<lparr> c_collectionDate := t0 + 24 * 60 * 60 * 1000 \<rparr>) \<and>
   \<not> fuzzyWhere BKASH exEvent t0 (colA\<lparr> c_collectionDate := t0 + 25 * 60 * 60 * 1000 \<rparr>) \<and>
   findMatch exCtx BKASH exEvent
       ((dbOf [])\<lparr> collections := [colA\<lparr> c_collectionDate := t0 - 24 * 60 * 60 * 1000 \<rparr>] \<rparr>) =
     Inr (Some (colA\<lparr> c_collectionDate := t0 - 24 * 60 * 60 * 1000 \<rparr>)) \<and>
   findMatch exCtx BKASH exEvent
       ((dbOf [])\<lparr> collections := [colA\<lparr> c_collectionDate := t0 - 25 * 60 * 60 * 1000 \<rparr>] \<rparr>) =
     Inr None"
proof -
  have h1: "c_type colA = BKASH" by (simp add: ex_defs)
  have h2: "c_amount colA = wd_amount exEvent" by (simp add: ex_defs)
  have h3: "c_status colA = PENDING" by (simp add: ex_defs)
  have h4: "\<not> c_isMatched colA" by (simp add: ex_defs)
  have h5: "c_txnId colA \<noteq> Some (wd_txnId exEvent)" by (simp add: ex_defs)
  have h6: "parseDate exCtx (wd_date exEvent) = Some t0" by (simp add: ex_defs)
  from window_boundary [OF h1 h2 h3 h4 h5 h6, where s = "dbOf []"] h1 h2 h3 h4 h5 h6
  show ?thesis by blast
qed

subsection \<open>What the claim writes to the collection\<close>

text \<open>
  Claim C7, as stated, fails. The collection \<open>colA\<close> was submitted with the agent's own
  transaction id; the event \<open>X1\<close> matches it by amount and date only, and the update
  replaces the agent's id by the event's.
\<close>

theorem claim_overwrites_txnId_counterexample:
  "map c_txnId (collections (dbOf [colA])) = [Some ''AGENT-A''] \<and>
   fst (processBkashWebhook exCtx exEvent (dbOf [colA])) =
     Inr \<lparr> matched = True, collectionId = Some 1, webhookLogId = 1 \<rparr> \<and>
   map r_matchType (reconciliations (snd (processBkashWebhook exCtx exEvent (dbOf [colA])))) =
     [FUZZY] \<and>
   map c_txnId (collections (snd (processBkashWebhook exCtx exEvent (dbOf [colA])))) =
     [Some ''X1'']"
  by (simp add: ex_defs op_defs Let_def)

text \<open>
  Claim C7, amended. Whenever a call reports a match, every row with the reported id
  carries the event's transaction id afterwards, whatever it carried before, and is
  approved and flagged as matched.
\<close>

theorem claim_overwrites_txnId:
  assumes run: "fst (processWebhook p cx d s) = Inr r"
      and cid: "collectionId r = Some cid"
  shows "list_ex (\<lambda>c. c_id c = cid) (collections (snd (processWebhook p cx d s))) \<and>
         list_all (\<lambda>c. c_id c = cid \<longrightarrow>
             c_txnId c = Some (wd_txnId d) \<and> c_status c = APPROVED \<and> c_isMatched c)
           (collections (snd (processWebhook p cx d s)))"
proof (cases rule: processWebhook_cases [of p cx d s])
  case rejected
  with run show ?thesis by simp
next
  case (unmatched l)
  with run cid show ?thesis by (auto simp: unmatchedResult_def)
next
  case (baddate l)
  with run show ?thesis by simp
next
  case (claimed l m)
  let ?s' = "snd (processWebhook p cx d s)"
  from claimed run cid have c: "cid = c_id m" and s': "collections ?s' =
      map (\<lambda>c. if c_id c = c_id m then claimData d c else c) (collections s)"
    by auto
  from imageI [OF claimed(4), of "\<lambda>c. if c_id c = c_id m then claimData d c else c"]
  have "claimData d m \<in> set (collections ?s')" unfolding s' by simp
  moreover have "c_id (claimData d m) = cid" unfolding c claimData_def by simp
  ultimately have "list_ex (\<lambda>c. c_id c = cid) (collections ?s')"
    unfolding list_ex_iff by blast
  moreover have "list_all (\<lambda>c. c_id c = cid \<longrightarrow>
             c_txnId c = Some (wd_txnId d) \<and> c_status c = APPROVED \<and> c_isMatched c)
           (collections ?s')"
    unfolding s' c by (auto simp: list_all_iff claimData_def)
  ultimately show ?thesis by simp
qed

theorem claim_overwrites_txnId_witness:
  "fst (processWebhook BKASH exCtx exEvent (dbOf [colA])) =
     Inr \<lparr> matched = True, collectionId = Some 1, webhookLogId = 1 \<rparr> \<and>
   collectionId \<lparr> matched = True, collectionId = Some 1, webhookLogId = 1 \<rparr> = Some 1 \<and>
   list_ex (\<lambda>c. c_id c = 1) (collections (snd (processWebhook BKASH exCtx exEvent (dbOf [colA])))) \<and>
   list_all (\<lambda>c. c_id c = 1 \<longrightarrow>
       c_txnId c = Some (wd_txnId exEvent) \<and> c_status c = APPROVED \<and> c_isMatched c)
     (collections (snd (processWebhook BKASH exCtx exEvent (dbOf [colA]))))"
proof -
  have h1: "fst (processWebhook BKASH exCtx exEvent (dbOf [colA])) =
     Inr \<lparr> matched = True, collectionId = Some 1, webhookLogId = 1 \<rparr>"
    by (simp add: ex_defs op_defs Let_def)
  have h2: "collectionId \<lparr> matched = True, collectionId = Some 1, webhookLogId = 1 \<rparr> = Some 1"
    by simp
  from claim_overwrites_txnId [OF h1 h2] h1 h2 show ?thesis by blast
qed

subsection \<open>Re-delivery of a payload\<close>

lemma createWebhookLog_key:
  assumes "createWebhookLog cx p d s = Inr (l, s1)"
  shows "wl_provider l = p \<and> wl_txnId l = wd_txnId d"
  using assms unfolding createWebhookLog_def Let_def by (auto split: if_splits)

lemma processWebhook_logs:
  "\<not> uniqueKey cx \<Longrightarrow>
   length (webhookLogs (snd (processWebhook p cx d s))) = Suc (length (webhookLogs s))"
  by (cases rule: processWebhook_cases [of p cx d s]) simp_all

lemma deliveries_logs:
  "\<not> uniqueKey cx \<Longrightarrow>
   length (webhookLogs (deliveries n p cx d s)) = length (webhookLogs s) + n"
  by (induction n arbitrary: s) (simp_all add: processWebhook_logs)

lemma processWebhook_rejected:
  "uniqueKey cx \<Longrightarrow> duplicateKey p d s \<Longrightarrow>
   processWebhook p cx d s = (Inl UniqueConstraintViolation, s)"
  unfolding processWebhook_def createWebhookLog_def by simp

lemma duplicateKey_after:
  "uniqueKey cx \<Longrightarrow> duplicateKey p d (snd (processWebhook p cx d s))"
proof (cases rule: processWebhook_cases [of p cx d s])
  case rejected
  then show ?thesis by simp
next
  case (unmatched l)
  with createWebhookLog_key [OF unmatched(1)] show ?thesis
    by (simp add: duplicateKey_def)
next
  case (baddate l)
  with createWebhookLog_key [OF baddate(1)] show ?thesis
    by (simp add: duplicateKey_def)
next
  case (claimed l m)
  with createWebhookLog_key [OF claimed(1)] show ?thesis
    by (simp add: duplicateKey_def)
qed

lemma deliveries_rejected:
  "uniqueKey cx \<Longrightarrow> duplicateKey p d s \<Longrightarrow> deliveries n p cx d s = s"
  by (induction n) (simp_all add: processWebhook_rejected)

lemma deliveries_unique:
  assumes "uniqueKey cx"
  shows "deliveries (Suc n) p cx d s = snd (processWebhook p cx d s)"
  using deliveries_rejected [OF assms duplicateKey_after [OF assms]] by simp

lemma processWebhook_reconciliations:
  "length (reconciliations (snd (processWebhook p cx d s))) \<le> Suc (length (reconciliations s))"
  by (cases rule: processWebhook_cases [of p cx d s]) simp_all

lemma filter_id_le_one:
  "distinct (map c_id cs) \<Longrightarrow> length (filter (\<lambda>c. c_id c = k) cs) \<le> 1"
proof (induction cs)
  case Nil
  then show ?case by simp
next
  case (Cons c cs)
  show ?case
  proof (cases "c_id c = k")
    case True
    from Cons.prems have "c_id c \<notin> c_id ` set cs" by simp
    with True have "\<forall>x\<in>set cs. c_id x \<noteq> k" by (metis imageI)
    then have "filter (\<lambda>c. c_id c = k) cs = []"
      by (simp add: filter_empty_conv)
    with True show ?thesis by simp
  next
    case False
    with Cons show ?thesis by simp
  qed
qed

lemma length_filter_mono:
  "(\<And>x. x \<in> set xs \<Longrightarrow> P x \<Longrightarrow> Q x) \<Longrightarrow> length (filter P xs) \<le> length (filter Q xs)"
  by (induction xs) auto

lemma transitions_map:
  "transitions cs (map f cs) = length (filter (\<lambda>c. c_status c \<noteq> c_status (f c)) cs)"
  unfolding transitions_def by (induction cs) auto

lemma transitions_same [simp]: "transitions cs cs = 0"
  using transitions_map [of cs "\<lambda>c. c"] by simp

lemma processWebhook_transitions:
  assumes "distinct (map c_id (collections s))"
  shows "transitions (collections s) (collections (snd (processWebhook p cx d s))) \<le> 1"
proof (cases rule: processWebhook_cases [of p cx d s])
  case (claimed l m)
  have "transitions (collections s) (collections (snd (processWebhook p cx d s))) =
      length (filter (\<lambda>c. c_status c \<noteq>
                 c_status (if c_id c = c_id m then claimData d c else c)) (collections s))"
    using claimed by (simp add: transitions_map)
  also have "\<dots> \<le> length (filter (\<lambda>c. c_id c = c_id m) (collections s))"
    by (rule length_filter_mono) (auto split: if_splits)
  also have "\<dots> \<le> 1" by (rule filter_id_le_one [OF assms])
  finally show ?thesis .
qed simp_all

text \<open>
  Claim C1, as stated, fails. Two pending collections of the same amount wait in the
  store. Without a unique key on the log, the second delivery of the same payload adds a
  second log row, runs the searches again, claims the other collection and records a
  second reconciliation; its result names another collection than the first delivery's.
  With a unique key, the second delivery ends in the constraint violation, not in the
  stored outcome.
\<close>

theorem redelivery_counterexample:
  "length (webhookLogs (deliveries 2 BKASH exCtx exEvent (dbOf [colA, colB]))) = 2 \<and>
   map r_collectionId (reconciliations (deliveries 2 BKASH exCtx exEvent (dbOf [colA, colB]))) =
     [1, 2] \<and>
   map c_status (collections (deliveries 2 BKASH exCtx exEvent (dbOf [colA, colB]))) =
     [APPROVED, APPROVED] \<and>
   fst (processBkashWebhook exCtx exEvent (dbOf [colA, colB])) =
     Inr \<lparr> matched = True, collectionId = Some 1, webhookLogId = 1 \<rparr> \<and>
   fst (processBkashWebhook exCtx exEvent (deliveries 1 BKASH exCtx exEvent (dbOf [colA, colB]))) =
     Inr \<lparr> matched = True, collectionId = Some 2, webhookLogId = 2 \<rparr> \<and>
   fst (processBkashWebhook exCtxUnique exEvent
          (deliveries 1 BKASH exCtxUnique exEvent (dbOf [colA, colB]))) =
     Inl UniqueConstraintViolation"
  by (simp add: ex_defs op_defs Let_def numeral_2_eq_2)

text \<open>
  Claim C1, amended. Every call starts by inserting a log row and never looks up an
  earlier delivery. Without a unique key on (provider, txnId), \<open>n\<close> deliveries of a payload
  leave \<open>n\<close> more log rows. With the key, every delivery after the first ends in the
  constraint violation and changes nothing, so the store stays as the first delivery left
  it. In both cases one delivery adds at most one reconciliation and changes the status
  of at most one collection.
\<close>

theorem redelivery_effects:
  "(\<not> uniqueKey cx \<longrightarrow>
      length (webhookLogs (deliveries n p cx d s)) = length (webhookLogs s) + n) \<and>
   (uniqueKey cx \<longrightarrow>
      deliveries (Suc n) p cx d s = snd (processWebhook p cx d s) \<and>
      processWebhook p cx d (deliveries (Suc n) p cx d s) =
        (Inl UniqueConstraintViolation, snd (processWebhook p cx d s))) \<and>
   length (reconciliations (snd (processWebhook p cx d s))) \<le> Suc (length (reconciliations s)) \<and>
   (distinct (map c_id (collections s)) \<longrightarrow>
      transitions (collections s) (collections (snd (processWebhook p cx d s))) \<le> 1)"
  using deliveries_logs [of cx n p d s] deliveries_unique [of cx n p d s]
    processWebhook_rejected [of cx p d "snd (processWebhook p cx d s)"]
    duplicateKey_after [of cx p d s]
    processWebhook_reconciliations [of p cx d s] processWebhook_transitions [of s p cx d]
  by simp

theorem redelivery_effects_witness:
  "\<not> uniqueKey exCtx \<and> uniqueKey exCtxUnique \<and>
   distinct (map c_id (collections (dbOf [colA, colB]))) \<and>
   length (webhookLogs (deliveries 3 BKASH exCtx exEvent (dbOf [colA, colB]))) =
     length (webhookLogs (dbOf [colA, colB])) + 3 \<and>
   deliveries (Suc 3) BKASH exCtxUnique exEvent (dbOf [colA, colB]) =
     snd (processWebhook BKASH exCtxUnique exEvent (dbOf [colA, colB])) \<and>
   transitions (collections (dbOf [colA, colB]))
     (collections (snd (processWebhook BKASH exCtx exEvent (dbOf [colA, colB])))) \<le> 1"
proof -
  have h1: "\<not> uniqueKey exCtx" by (simp add: ex_defs)
  have h2: "uniqueKey exCtxUnique" by (simp add: ex_defs)
  have h3: "distinct (map c_id (collections (dbOf [colA, colB])))" by (simp add: ex_defs)
  from redelivery_effects [of exCtx 3 BKASH exEvent "dbOf [colA, colB]"]
    redelivery_effects [of exCtxUnique 3 BKASH exEvent "dbOf [colA, colB]"] h1 h2 h3
  show ?thesis by blast
qed

subsection \<open>Claims of one collection\<close>

text \<open>A call run alone passes through at most five store operations and ends as the function does.\<close>

lemma steps_processWebhook:
  "steps 5 p cx (AtStart d) s =
     (outcome (fst (processWebhook p cx d s)), snd (processWebhook p cx d s))"
proof -
  have five: "(5::nat) = Suc (Suc (Suc (Suc (Suc 0))))" by simp
  show ?thesis
    unfolding five processWebhook_def findMatch_def claimMatch_def outcome_def
    by (auto split: sum.splits option.splits prod.splits if_splits)
qed

lemma claimedOnce_initial:
  "distinct (map c_id (collections s)) \<Longrightarrow> reconciliations s = [] \<Longrightarrow> claimedOnce s"
  unfolding claimedOnce_def by simp

lemma claimedOnce_step:
  assumes inv: "claimedOnce s"
  shows "claimedOnce (snd (processWebhook p cx d s))"
proof (cases rule: processWebhook_cases [of p cx d s])
  case rejected
  with inv show ?thesis by simp
next
  case (unmatched l)
  with inv show ?thesis by (simp add: claimedOnce_def)
next
  case (baddate l)
  with inv show ?thesis by (simp add: claimedOnce_def)
next
  case (claimed l m)
  let ?f = "\<lambda>c. if c_id c = c_id m then claimData d c else c"
  from inv have ids: "distinct (map c_id (collections s))"
    and rids: "distinct (map r_collectionId (reconciliations s))"
    and np: "\<And>r c. r \<in> set (reconciliations s) \<Longrightarrow> c \<in> set (collections s) \<Longrightarrow>
               c_id c = r_collectionId r \<Longrightarrow> c_status c \<noteq> PENDING"
    unfolding claimedOnce_def list_all_iff by auto
  have idf: "c_id (?f c) = c_id c" for c by (simp add: claimData_def)
  have "c_id \<circ> ?f = c_id" by (rule ext) (simp add: claimData_def)
  then have "map c_id (map ?f (collections s)) = map c_id (collections s)"
    by (simp only: map_map)
  with ids have 1: "distinct (map c_id (map ?f (collections s)))" by (simp only:)
  have fresh: "c_id m \<notin> r_collectionId ` set (reconciliations s)"
  proof
    assume "c_id m \<in> r_collectionId ` set (reconciliations s)"
    then obtain r where "r \<in> set (reconciliations s)" "c_id m = r_collectionId r" by auto
    from np [OF this(1) claimed(4) this(2)] claimed(5) show False by simp
  qed
  have rm: "r_collectionId (matchedReconciliation cx d l m) = c_id m"
    by (simp add: matchedReconciliation_def)
  from rids fresh rm
  have 2: "distinct (map r_collectionId (reconciliations s @ [matchedReconciliation cx d l m]))"
    by simp
  have 3: "c_status c' \<noteq> PENDING"
    if r: "r \<in> set (reconciliations s @ [matchedReconciliation cx d l m])"
      and c': "c' \<in> set (map ?f (collections s))" and eq: "c_id c' = r_collectionId r" for r c'
  proof -
    from c' obtain c where c: "c \<in> set (collections s)" "c' = ?f c" by auto
    show ?thesis
    proof (cases "c_id c = c_id m")
      case True
      with c show ?thesis by (simp add: claimData_def)
    next
      case False
      with c have cc: "c' = c" by simp
      from False eq cc rm r have "r \<in> set (reconciliations s)" by auto
      from np [OF this c(1)] eq cc show ?thesis by simp
    qed
  qed
  from claimed(7) 1 2 3 show ?thesis
    unfolding claimedOnce_def list_all_iff by (simp del: set_append set_map map_map)
qed

lemma reachable_claimedOnce: "reachable s \<Longrightarrow> claimedOnce s"
  by (induction rule: reachable.induct)
     (simp_all add: claimedOnce_initial claimedOnce_step processBkashWebhook_def
        processNagadWebhook_def)

lemma distinct_filter_le_one:
  "distinct (map f xs) \<Longrightarrow> length (filter (\<lambda>x. f x = k \<and> P x) xs) \<le> 1"
proof (induction xs)
  case Nil
  then show ?case by simp
next
  case (Cons x xs)
  show ?case
  proof (cases "f x = k")
    case True
    from Cons.prems have "f x \<notin> f ` set xs" by simp
    with True have "\<forall>y\<in>set xs. f y \<noteq> k" by (metis imageI)
    then have "filter (\<lambda>x. f x = k \<and> P x) xs = []"
      by (simp add: filter_empty_conv)
    then show ?thesis by simp
  next
    case False
    with Cons show ?thesis by simp
  qed
qed

text \<open>
  Claim C2, as stated, fails. Two calls for different events run on a store with a single
  candidate. Both searches return the candidate before either call updates it; each
  update, which names the row by id only, succeeds; the store ends with two MATCHED
  reconciliations for the one collection, and both calls report a match.
\<close>

theorem concurrent_claims_counterexample:
  "interleave [False, True, False, True, False, True, False, True, False, True] BKASH exCtx
       (AtStart exEvent, AtStart exEvent2, dbOf [colA]) =
     (Finished \<lparr> matched = True, collectionId = Some 1, webhookLogId = 1 \<rparr>,
      Finished \<lparr> matched = True, collectionId = Some 1, webhookLogId = 2 \<rparr>,
      snd (snd (interleave [False, True, False, True, False, True, False, True, False, True]
                  BKASH exCtx (AtStart exEvent, AtStart exEvent2, dbOf [colA])))) \<and>
   matchedCount 1
     (snd (snd (interleave [False, True, False, True, False, True, False, True, False, True]
                  BKASH exCtx (AtStart exEvent, AtStart exEvent2, dbOf [colA])))) = 2"
  by (simp add: ex_defs op_defs Let_def matchedCount_def)

text \<open>
  Claim C2, amended. When calls run one after another, each to its end before the next
  starts, every collection has at most one MATCHED reconciliation: both searches return
  pending rows only and the update approves the row. The update itself names the row by
  id alone and does not test the status.
\<close>

theorem sequential_claims_once:
  assumes "reachable s"
  shows "matchedCount cid s \<le> 1"
proof -
  from reachable_claimedOnce [OF assms]
  have "distinct (map r_collectionId (reconciliations s))"
    unfolding claimedOnce_def by simp
  from distinct_filter_le_one [OF this] show ?thesis
    unfolding matchedCount_def .
qed

theorem sequential_claims_once_witness:
  "reachable (snd (processBkashWebhook exCtx exEvent2
      (snd (processBkashWebhook exCtx exEvent (dbOf [colA]))))) \<and>
   matchedCount 1 (snd (processBkashWebhook exCtx exEvent2
      (snd (processBkashWebhook exCtx exEvent (dbOf [colA]))))) = 1"
proof -
  have "reachable (dbOf [colA])"
    by (rule reachable.initial) (simp_all add: dbOf_def)
  then have r: "reachable (snd (processBkashWebhook exCtx exEvent2
      (snd (processBkashWebhook exCtx exEvent (dbOf [colA])))))"
    by (intro reachable.bkash)
  have "matchedCount 1 (snd (processBkashWebhook exCtx exEvent2
      (snd (processBkashWebhook exCtx exEvent (dbOf [colA]))))) \<noteq> 0"
    by (simp add: ex_defs op_defs Let_def matchedCount_def)
  with sequential_claims_once [OF r, of 1] r show ?thesis by simp
qed

subsection \<open>Signature verification\<close>


lemma unhex_hexDigit: "n < 16 \<Longrightarrow> unhex (hexDigit n) = Some n"
  unfolding unhex_def hexDigit_def Let_def by (auto simp: of_char_of)

lemma hexDecode_hexEncode: "hexDecode (hexEncode bs) = bs"
proof (induction bs)
  case Nil
  show ?case by (simp add: hexEncode_def)
next
  case (Cons b bs)
  have "unat b < 2 ^ LENGTH(8)" by (rule unsigned_less)
  then have "unat b < 256" by simp
  then have lt: "unat b div 16 < 16" by simp
  have "hexEncode (b # bs) = hexDigit (unat b div 16) # hexDigit (unat b mod 16) # hexEncode bs"
    by (simp add: hexEncode_def)
  moreover have "(word_of_nat (16 * (unat b div 16) + unat b mod 16) :: byte) = b"
    by simp
  ultimately show ?case using Cons lt by (simp add: unhex_hexDigit)
qed


lemma replaceFirst_prefix: "pat \<noteq> [] \<Longrightarrow> replaceFirst pat [] (pat @ rest) = rest"
  by (cases pat) simp_all

text \<open>What the middleware answers once a signature and a secret are there.\<close>

lemma verifyWebhookSignature_compare:
  assumes sg: "truthy (signatureHeader req) = Some signature"
      and sec: "truthy (secretFor provider env) = Some secret"
  shows "verifyWebhookSignature provider env req =
     (case timingSafeEqual (hmacSha256 env secret (signedPayload env req))
             (hexDecode (replaceFirst ''sha256='' [] signature)) of
        Inl thrown \<Rightarrow> Respond 500 ''Signature verification failed''
      | Inr False \<Rightarrow> Respond 401 ''Invalid signature''
      | Inr True \<Rightarrow>
          (case truthy (timestampHeader req) of
             None \<Rightarrow> Next
           | Some ts \<Rightarrow>
               (case parseInt env ts of
                  None \<Rightarrow> Next
                | Some n \<Rightarrow>
                    if \<bar>dateNow env - n * 1000\<bar> > 5 * 60 * 1000
                    then Respond 401 ''Request timestamp too old''
                    else Next)))"
  unfolding verifyWebhookSignature_def sg sec by (simp add: Let_def hexDecode_hexEncode)

lemma webhookRoute_rejected:
  "verifyWebhookSignature provider env req = Respond code msg \<Longrightarrow>
   webhookRoute provider env cx req s = (ErrorResponse code msg, s)"
  unfolding webhookRoute_def by simp

text \<open>
  Claim C10. When the signature header is there and the provider's secret is configured,
  a provided signature that, once the first \<^verbatim>\<open>sha256=\<close> is removed and the rest is
  decoded as hex, is not 32 bytes long makes \<^verbatim>\<open>timingSafeEqual\<close> throw, and the
  request is answered 500 "Signature verification failed"; one that is 32 bytes long and
  differs from the digest is answered 401 "Invalid signature". Neither reaches the handler.
\<close>

theorem wrong_length_signature_500:
  assumes sg: "truthy (signatureHeader req) = Some signature"
      and sec: "truthy (secretFor provider env) = Some secret"
      and dig: "length (hmacSha256 env secret (signedPayload env req)) = 32"
  shows "(length (hexDecode (replaceFirst ''sha256='' [] signature)) \<noteq> 32 \<longrightarrow>
            verifyWebhookSignature provider env req =
              Respond 500 ''Signature verification failed'' \<and>
            webhookRoute provider env cx req s =
              (ErrorResponse 500 ''Signature verification failed'', s)) \<and>
         (length (hexDecode (replaceFirst ''sha256='' [] signature)) = 32 \<and>
          hexDecode (replaceFirst ''sha256='' [] signature) \<noteq>
            hmacSha256 env secret (signedPayload env req) \<longrightarrow>
            verifyWebhookSignature provider env req = Respond 401 ''Invalid signature'' \<and>
            webhookRoute provider env cx req s = (ErrorResponse 401 ''Invalid signature'', s)) \<and>
         replaceFirst ''sha256='' [] (''sha256='' @ rest) = rest"
proof -
  note cmp = verifyWebhookSignature_compare [OF sg sec]
  have a: "verifyWebhookSignature provider env req = Respond 500 ''Signature verification failed''"
    if "length (hexDecode (replaceFirst ''sha256='' [] signature)) \<noteq> 32"
    using that dig unfolding cmp timingSafeEqual_def by simp
  have b: "verifyWebhookSignature provider env req = Respond 401 ''Invalid signature''"
    if "length (hexDecode (replaceFirst ''sha256='' [] signature)) = 32"
      "hexDecode (replaceFirst ''sha256='' [] signature) \<noteq>
         hmacSha256 env secret (signedPayload env req)"
    using that dig unfolding cmp timingSafeEqual_def by auto
  have c: "replaceFirst ''sha256='' [] (''sha256='' @ rest) = rest"
    by (rule replaceFirst_prefix) simp
  have a': "webhookRoute provider env cx req s =
              (ErrorResponse 500 ''Signature verification failed'', s)"
    if "length (hexDecode (replaceFirst ''sha256='' [] signature)) \<noteq> 32"
    using webhookRoute_rejected [OF a [OF that]] .
  have b': "webhookRoute provider env cx req s = (ErrorResponse 401 ''Invalid signature'', s)"
    if "length (hexDecode (replaceFirst ''sha256='' [] signature)) = 32"
      "hexDecode (replaceFirst ''sha256='' [] signature) \<noteq>
         hmacSha256 env secret (signedPayload env req)"
    using webhookRoute_rejected [OF b [OF that]] .
  from a a' b b' c show ?thesis by blast
qed

theorem wrong_length_signature_500_witness:
  "truthy (signatureHeader (exRequest ''sha256=0303'')) = Some ''sha256=0303'' \<and>
   truthy (secretFor BKASH exEnv) = Some ''k'' \<and>
   length (hmacSha256 exEnv ''k'' (signedPayload exEnv (exRequest ''sha256=0303''))) = 32 \<and>
   length (hexDecode (replaceFirst ''sha256='' [] ''sha256=0303'')) \<noteq> 32 \<and>
   verifyWebhookSignature BKASH exEnv (exRequest ''sha256=0303'') =
     Respond 500 ''Signature verification failed'' \<and>
   webhookRoute BKASH exEnv exCtx (exRequest ''sha256=0303'') (dbOf [colA]) =
     (ErrorResponse 500 ''Signature verification failed'', dbOf [colA])"
proof -
  have h1: "truthy (signatureHeader (exRequest ''sha256=0303'')) = Some ''sha256=0303''"
    by (simp add: truthy_def signatureHeader_def jsOr_def exRequest_def)
  have h2: "truthy (secretFor BKASH exEnv) = Some ''k''"
    by (simp add: truthy_def secretFor_def exEnv_def)
  have h3: "length (hmacSha256 exEnv ''k'' (signedPayload exEnv (exRequest ''sha256=0303''))) = 32"
    by (simp add: exEnv_def exDigest_def)
  have h4: "length (hexDecode (replaceFirst ''sha256='' [] ''sha256=0303'')) \<noteq> 32"
    by (simp add: unhex_def)
  from wrong_length_signature_500 [OF h1 h2 h3, of exCtx "dbOf [colA]"] h1 h2 h3 h4
  show ?thesis by blast
qed

text \<open>
  Claim C3, as stated, fails. A provided signature of two bytes does not match the digest
  and is answered 500, not 401. A provided signature that is the expected one followed by
  two more characters is not the expected string, and passes.
\<close>

theorem signature_mismatch_counterexample:
  "hexDecode (replaceFirst ''sha256='' [] ''sha256=0303'') \<noteq>
     hmacSha256 exEnv ''k'' (signedPayload exEnv (exRequest ''sha256=0303'')) \<and>
   verifyWebhookSignature BKASH exEnv (exRequest ''sha256=0303'') =
     Respond 500 ''Signature verification failed'' \<and>
   hexEncode (hmacSha256 exEnv ''k'' (signedPayload exEnv (exRequest [])))
     @ ''zz'' \<noteq>
   hexEncode (hmacSha256 exEnv ''k'' (signedPayload exEnv (exRequest []))) \<and>
   verifyWebhookSignature BKASH exEnv
     (exRequest (hexEncode (hmacSha256 exEnv ''k'' (signedPayload exEnv (exRequest []))) @ ''zz'')) =
     Next"
  by code_simp

text \<open>
  Claim C3, amended. With a signature header and a configured secret, the middleware
  computes HMAC-SHA256, keyed with the provider's secret, over the timestamp header, a
  dot and \<^verbatim>\<open>JSON.stringify\<close> of the parsed body when a timestamp header is there, and
  over \<^verbatim>\<open>JSON.stringify\<close> of the parsed body alone otherwise. A request passes only if the
  bytes decoded from the provided signature are that digest. A provided signature that
  decodes to as many bytes as the digest and differs from it is answered 401
  "Invalid signature", the handler does not run and the store is unchanged.
\<close>

theorem signature_verification:
  assumes sg: "truthy (signatureHeader req) = Some signature"
      and sec: "truthy (if provider = BKASH then BKASH_WEBHOOK_SECRET env
                        else NAGAD_WEBHOOK_SECRET env) = Some secret"
      and payload: "payload =
                      (case truthy (timestampHeader req) of
                         Some ts \<Rightarrow> ts @ ''.'' @ jsonStringify env (body req)
                       | None \<Rightarrow> jsonStringify env (body req))"
  shows "(verifyWebhookSignature provider env req = Next \<longrightarrow>
            hexDecode (replaceFirst ''sha256='' [] signature) = hmacSha256 env secret payload) \<and>
         (length (hexDecode (replaceFirst ''sha256='' [] signature)) =
            length (hmacSha256 env secret payload) \<and>
          hexDecode (replaceFirst ''sha256='' [] signature) \<noteq> hmacSha256 env secret payload \<longrightarrow>
            verifyWebhookSignature provider env req = Respond 401 ''Invalid signature'' \<and>
            webhookRoute provider env cx req s = (ErrorResponse 401 ''Invalid signature'', s))"
proof -
  from sec have sec': "truthy (secretFor provider env) = Some secret"
    by (simp add: secretFor_def)
  from payload have p: "payload = signedPayload env req" by (simp add: signedPayload_def)
  note cmp = verifyWebhookSignature_compare [OF sg sec']
  have a: "hexDecode (replaceFirst ''sha256='' [] signature) = hmacSha256 env secret payload"
    if "verifyWebhookSignature provider env req = Next"
    using that unfolding cmp p timingSafeEqual_def
    by (cases "hmacSha256 env secret (signedPayload env req) =
                 hexDecode (replaceFirst ''sha256='' [] signature)")
       (auto split: if_splits)
  have b: "verifyWebhookSignature provider env req = Respond 401 ''Invalid signature''"
    if "length (hexDecode (replaceFirst ''sha256='' [] signature)) =
            length (hmacSha256 env secret payload)"
       "hexDecode (replaceFirst ''sha256='' [] signature) \<noteq> hmacSha256 env secret payload"
    using that unfolding cmp p timingSafeEqual_def by auto
  have b': "webhookRoute provider env cx req s = (ErrorResponse 401 ''Invalid signature'', s)"
    if "length (hexDecode (replaceFirst ''sha256='' [] signature)) =
            length (hmacSha256 env secret payload)"
       "hexDecode (replaceFirst ''sha256='' [] signature) \<noteq> hmacSha256 env secret payload"
    using webhookRoute_rejected [OF b [OF that]] .
  from a b b' show ?thesis by blast
qed

theorem signature_verification_witness:
  "truthy (signatureHeader (exRequest (replicate 64 CHR ''0''))) = Some (replicate 64 CHR ''0'') \<and>
   truthy (if BKASH = BKASH then BKASH_WEBHOOK_SECRET exEnv else NAGAD_WEBHOOK_SECRET exEnv) =
     Some ''k'' \<and>
   length (hexDecode (replaceFirst ''sha256='' [] (replicate 64 CHR ''0''))) =
     length (hmacSha256 exEnv ''k'' ''{}'') \<and>
   hexDecode (replaceFirst ''sha256='' [] (replicate 64 CHR ''0'')) \<noteq> hmacSha256 exEnv ''k'' ''{}'' \<and>
   webhookRoute BKASH exEnv exCtx (exRequest (replicate 64 CHR ''0'')) (dbOf [colA]) =
     (ErrorResponse 401 ''Invalid signature'', dbOf [colA])"
proof -
  let ?sg = "replicate 64 CHR ''0''"
  have h1: "truthy (signatureHeader (exRequest ?sg)) = Some ?sg"
    by code_simp
  have h2: "truthy (if BKASH = BKASH then BKASH_WEBHOOK_SECRET exEnv
                    else NAGAD_WEBHOOK_SECRET exEnv) = Some ''k''"
    by (simp add: truthy_def exEnv_def)
  have h3: "''{}'' = (case truthy (timestampHeader (exRequest ?sg)) of
                         Some ts \<Rightarrow> ts @ ''.'' @ jsonStringify exEnv (body (exRequest ?sg))
                       | None \<Rightarrow> jsonStringify exEnv (body (exRequest ?sg)))"
    by (simp add: truthy_def timestampHeader_def jsOr_def exRequest_def exEnv_def)
  have h4: "length (hexDecode (replaceFirst ''sha256='' [] ?sg)) =
     length (hmacSha256 exEnv ''k'' ''{}'')"
    by code_simp
  have h5: "hexDecode (replaceFirst ''sha256='' [] ?sg) \<noteq> hmacSha256 exEnv ''k'' ''{}''"
    by code_simp
  from signature_verification [OF h1 h2 h3, of exCtx "dbOf [colA]"] h1 h2 h4 h5
  show ?thesis by blast
qed

subsection \<open>The sweep query\<close>

lemma collect_member:
  "collect xs = Inr ys \<Longrightarrow> Inr zs \<in> set xs \<Longrightarrow> set zs \<subseteq> set ys"
  by (induction xs arbitrary: ys) (auto split: sum.splits)

lemma collect_returns:
  "(\<And>x. x \<in> set xs \<Longrightarrow> \<exists>zs. x = Inr zs) \<Longrightarrow> \<exists>ys. collect xs = Inr ys"
proof (induction xs)
  case Nil
  show ?case by simp
next
  case (Cons x xs)
  from Cons.prems [of x] obtain zs where x: "x = Inr zs" by auto
  from Cons.IH Cons.prems obtain ys where "collect xs = Inr ys" by auto
  with x show ?case by simp
qed

lemma limitOf_safe:
  "safeSetting factor v \<Longrightarrow> limitOf factor dflt v = Inr (of_int (limitSeconds factor dflt v))"
  unfolding safeSetting_def limitOf_def limitSeconds_def textToInteger_def int4_def
  by (cases v) simp_all

lemma depositRow_returns:
  assumes "safeSetting 3600 (b_depositHours b)"
      and "inInt4 (roundHalfAway (epochSince nowMicros (c_createdAt c)))"
  shows "\<exists>zs. depositRow eager nowMicros c a b = Inr zs"
  using assms limitOf_safe [of 3600 "b_depositHours b" 172800]
  unfolding depositRow_def depositLimit_def castInteger_def int4_def Let_def by simp

lemma updateRow_returns:
  assumes "safeSetting 86400 (b_updateDays b)"
      and "inInt4 (roundHalfAway (epochSince nowMicros (lastContact a)))"
  shows "\<exists>zs. updateRow eager nowMicros a b = Inr zs"
  using assms limitOf_safe [of 86400 "b_updateDays b" 604800]
  unfolding updateRow_def updateLimit_def castInteger_def int4_def by simp

lemma check_sla_breaches_returns:
  assumes "safeTables nowMicros t"
  shows "\<exists>deposits updates. depositBreaches eager nowMicros t = Inr deposits \<and>
           updateBreaches eager nowMicros t = Inr updates \<and>
           check_sla_breaches eager nowMicros t = Inr (deposits @ updates)"
proof -
  from assms have
    banks: "\<And>b. b \<in> set (t_banks t) \<Longrightarrow>
              safeSetting 3600 (b_depositHours b) \<and> safeSetting 86400 (b_updateDays b)"
    and cols: "\<And>c. c \<in> set (t_collections t) \<Longrightarrow>
              inInt4 (roundHalfAway (epochSince nowMicros (c_createdAt c)))"
    and accs: "\<And>a. a \<in> set (t_accounts t) \<Longrightarrow>
              inInt4 (roundHalfAway (epochSince nowMicros (lastContact a)))"
    unfolding safeTables_def list_all_iff by auto
  have "\<exists>deposits. depositBreaches eager nowMicros t = Inr deposits"
    unfolding depositBreaches_def
    by (rule collect_returns) (auto intro!: depositRow_returns dest: banks cols)
  moreover have "\<exists>updates. updateBreaches eager nowMicros t = Inr updates"
    unfolding updateBreaches_def
    by (rule collect_returns) (auto intro!: updateRow_returns dest: banks accs)
  ultimately show ?thesis unfolding check_sla_breaches_def by auto
qed

lemma depositRow_listed:
  assumes "c \<in> set (t_collections t)" "a \<in> set (t_accounts t)" "b \<in> set (t_banks t)"
  shows "depositRow eager nowMicros c a b \<in>
     set (concat (map (\<lambda>c.
       concat (map (\<lambda>a.
         map (\<lambda>b. depositRow eager nowMicros c a b) (t_banks t))
       (t_accounts t)))
     (t_collections t)))"
  using assms by auto

text \<open>
  The function raises on a bank whose update limit does not fit INTEGER, whichever way
  the conditions are evaluated, when the bank has an account.
\<close>

lemma check_sla_breaches_raises:
  "check_sla_breaches False fiftyHoursLater
     ((exTables 24)\<lparr> t_banks := [\<lparr> b_id = 1, b_depositHours = IntegerText 24,
                                    b_updateDays = IntegerText 30000 \<rparr>] \<rparr>) =
   Inl NumericValueOutOfRange \<and>
   check_sla_breaches True fiftyHoursLater
     ((exTables 24)\<lparr> t_banks := [\<lparr> b_id = 1, b_depositHours = IntegerText 24,
                                    b_updateDays = IntegerText 30000 \<rparr>] \<rparr>) =
   Inl NumericValueOutOfRange"
  by code_simp

text \<open>
  Claim C8, as stated, fails. The bank's deposit limit is 48 hours and the cash
  collection is 50 hours old: two hours over, less than once the limit, and less than
  twice the limit in all. The row is CRITICAL all the same, since 50 hours exceed the
  constant 172800 seconds.
\<close>

theorem severity_scale_counterexample:
  "check_sla_breaches False fiftyHoursLater (exTables 48) =
     Inr [\<lparr> account_id = 10, breach_type = ''DEPOSIT_DELAY'', breach_hours = 50,
            severity = CRITICAL \<rparr>] \<and>
   check_sla_breaches True fiftyHoursLater (exTables 48) =
     Inr [\<lparr> account_id = 10, breach_type = ''DEPOSIT_DELAY'', breach_hours = 50,
            severity = CRITICAL \<rparr>] \<and>
   epochSince fiftyHoursLater (c_createdAt cashCol) = 50 * 3600 \<and>
   epochSince fiftyHoursLater (c_createdAt cashCol) - 48 * 3600 < 1 * (48 * 3600) \<and>
   epochSince fiftyHoursLater (c_createdAt cashCol) < 2 * (48 * 3600)"
  by code_simp

text \<open>
  Claim C8, amended. On tables where no SLA setting or age makes the function raise
  (every setting is absent or an integer that stays within 32 bits when converted to
  seconds, and every age fits the cast), the sweep returns, and for every pending CASH
  or BANK_DEPOSIT collection whose age exceeds its bank's deposit limit (the configured
  hours, or 48 hours when none is configured) the rows hold a DEPOSIT_DELAY row for the
  collection's account. Its severity depends on the age alone, by constant bounds:
  CRITICAL above 48 hours, ERROR above 24 hours and up to 48, WARNING otherwise. So a
  cash collection 50 hours old under a limit of 24 hours yields CRITICAL.
\<close>

theorem deposit_delay_severity:
  assumes safe: "safeTables nowMicros t"
      and c: "c \<in> set (t_collections t)"
      and a: "a \<in> set (t_accounts t)"
      and b: "b \<in> set (t_banks t)"
      and ca: "c_accountId c = a_id a"
      and ab: "a_bankId a = b_id b"
      and pend: "c_status c = PENDING"
      and ty: "c_type c = CASH \<or> c_type c = BANK_DEPOSIT"
      and age: "age = epochSince nowMicros (c_createdAt c)"
      and over: "age > of_int (case b_depositHours b of IntegerText h \<Rightarrow> h * 3600 | _ \<Rightarrow> 172800)"
  shows "\<exists>rows. check_sla_breaches eager nowMicros t = Inr rows \<and>
           \<lparr> account_id = c_accountId c,
             breach_type = ''DEPOSIT_DELAY'',
             breach_hours = pgDiv (roundHalfAway age) 3600,
             severity = (if age > 48 * 3600 then CRITICAL
                         else if age > 24 * 3600 then ERROR else WARNING) \<rparr>
           \<in> set rows"
proof -
  from check_sla_breaches_returns [OF safe, of eager] obtain deposits updates where
    dep: "depositBreaches eager nowMicros t = Inr deposits"
    and chk: "check_sla_breaches eager nowMicros t = Inr (deposits @ updates)"
    by blast
  from safe b have sb: "safeSetting 3600 (b_depositHours b)"
    unfolding safeTables_def list_all_iff by blast
  from safe c have sc: "inInt4 (roundHalfAway age)"
    unfolding safeTables_def list_all_iff age by blast
  from limitOf_safe [OF sb, of 172800]
  have lim: "depositLimit b = Inr (of_int (limitSeconds 3600 172800 (b_depositHours b)))"
    unfolding depositLimit_def .
  from over have over': "age > of_int (limitSeconds 3600 172800 (b_depositHours b))"
    unfolding limitSeconds_def .
  have row: "depositRow eager nowMicros c a b =
      Inr [depositBreach nowMicros c (roundHalfAway age)]"
    using ca ab pend ty lim over' sc
    unfolding depositRow_def castInteger_def int4_def Let_def age by simp
  from depositRow_listed [OF c a b, of eager nowMicros]
  have "Inr [depositBreach nowMicros c (roundHalfAway age)] \<in>
     set (concat (map (\<lambda>c.
       concat (map (\<lambda>a.
         map (\<lambda>b. depositRow eager nowMicros c a b) (t_banks t))
       (t_accounts t)))
     (t_collections t)))"
    unfolding row .
  from collect_member [OF dep [unfolded depositBreaches_def] this]
  have "depositBreach nowMicros c (roundHalfAway age) \<in> set (deposits @ updates)" by simp
  moreover have "depositSeverity age =
      (if age > 48 * 3600 then CRITICAL else if age > 24 * 3600 then ERROR else WARNING)"
    unfolding depositSeverity_def by simp
  ultimately have "\<lparr> account_id = c_accountId c,
             breach_type = ''DEPOSIT_DELAY'',
             breach_hours = pgDiv (roundHalfAway age) 3600,
             severity = (if age > 48 * 3600 then CRITICAL
                         else if age > 24 * 3600 then ERROR else WARNING) \<rparr>
           \<in> set (deposits @ updates)"
    unfolding depositBreach_def age by (simp only:)
  with chk show ?thesis by blast
qed

theorem deposit_delay_severity_witness:
  "safeTables fiftyHoursLater (exTables 24) \<and>
   cashCol \<in> set (t_collections (exTables 24)) \<and>
   c_status cashCol = PENDING \<and> c_type cashCol = CASH \<and>
   epochSince fiftyHoursLater (c_createdAt cashCol) = 50 * 3600 \<and>
   (\<exists>rows. check_sla_breaches False fiftyHoursLater (exTables 24) = Inr rows \<and>
      \<lparr> account_id = 10, breach_type = ''DEPOSIT_DELAY'', breach_hours = 50,
        severity = CRITICAL \<rparr> \<in> set rows)"
proof -
  let ?a = "\<lparr> a_id = 10, a_bankId = 1, a_lastContactDate = Some t0, a_createdAt = t0 \<rparr>"
  let ?b = "\<lparr> b_id = 1, b_depositHours = IntegerText 24, b_updateDays = IntegerText 7 \<rparr>"
  have h0: "safeTables fiftyHoursLater (exTables 24)" by code_simp
  have h1: "cashCol \<in> set (t_collections (exTables 24))" by (simp add: exTables_def)
  have h2: "?a \<in> set (t_accounts (exTables 24))" by (simp add: exTables_def)
  have h3: "?b \<in> set (t_banks (exTables 24))" by (simp add: exTables_def)
  have h4: "c_accountId cashCol = a_id ?a" by (simp add: cashCol_def)
  have h5: "a_bankId ?a = b_id ?b" by simp
  have h6: "c_status cashCol = PENDING" by (simp add: cashCol_def)
  have h7: "c_type cashCol = CASH" by (simp add: cashCol_def)
  have h8: "50 * 3600 = epochSince fiftyHoursLater (c_createdAt cashCol)"
    by (simp add: epochSince_def fiftyHoursLater_def cashCol_def t0_def hour_def)
  have h9: "(50 * 3600 :: rat) >
      of_int (case b_depositHours ?b of IntegerText h \<Rightarrow> h * 3600 | _ \<Rightarrow> 172800)"
    by simp
  have h10: "pgDiv (roundHalfAway (50 * 3600)) 3600 = 50"
    by code_simp
  from deposit_delay_severity [OF h0 h1 h2 h3 h4 h5 h6 disjI1 [OF h7] h8 h9, of False] h10
  have "\<exists>rows. check_sla_breaches False fiftyHoursLater (exTables 24) = Inr rows \<and>
      \<lparr> account_id = 10, breach_type = ''DEPOSIT_DELAY'', breach_hours = 50,
        severity = CRITICAL \<rparr> \<in> set rows"
    by (simp add: cashCol_def)
  with h0 h1 h6 h7 h8 show ?thesis by simp
qed

subsection \<open>Alerts\<close>

text \<open>The consumer of the \<^verbatim>\<open>alert-processing\<close> queue adds one alert row for every job.\<close>

lemma alertWorker_alerts:
  "alerts (alertWorker now job st) =
     alerts st @
       [\<lparr> al_id = freshId (map al_id (alerts st)),
          al_type = j_type job,
          al_title = generateAlertTitle (j_type job) (j_data job),
          al_description = generateAlertDescription (j_type job) (j_data job),
          al_severity = getAlertSeverity (j_type job),
          al_accountId = j_accountId job,
          al_agentId = j_agentId job,
          al_data = j_data job,
          al_createdAt = now \<rparr>]"
  unfolding alertWorker_def Let_def by simp

lemma processJobs_alerts:
  "length (alerts (processJobs jobs st)) = length (alerts st) + length jobs"
  by (induction jobs st rule: processJobs.induct) (simp_all add: alertWorker_alerts)

text \<open>A run of the sweep writes to the log and to its own queue only.\<close>

lemma logInfo_frame [simp]:
  "candidates (logInfo line st) = candidates st"
  "backend (logInfo line st) = backend st"
  "alertsQueue (logInfo line st) = alertsQueue st"
  unfolding logInfo_def by simp_all

lemma alertsWorker_frame [simp]:
  "candidates (alertsWorker job st) = candidates st"
  "backend (alertsWorker job st) = backend st"
  "alertsQueue (alertsWorker job st) = alertsQueue st"
  unfolding alertsWorker_def Let_def checkSLABreaches_def checkMissedPTPs_def checkNoUpdates_def
  by (simp_all split: option.splits)

lemma runJobs_frame [simp]:
  "candidates (runJobs jobs st) = candidates st"
  "backend (runJobs jobs st) = backend st"
  "alertsQueue (runJobs jobs st) = alertsQueue st"
  by (induction jobs arbitrary: st) simp_all

lemma slaSweep_frame [simp]:
  "candidates (slaSweep now st) = candidates st"
  "backend (slaSweep now st) = backend st"
  "alertsQueue (slaSweep now st) = []"
  unfolding slaSweep_def scheduleSlaCheck_def Let_def by simp_all

lemma sweeps_frame [simp]:
  "candidates (sweeps runs st) = candidates st"
  "backend (sweeps runs st) = backend st"
  by (induction runs arbitrary: st) simp_all





end
